theory Spec2Isabelle
  imports Complex_Main "HOL-Library.Char_ord" "HOL-Library.List_Lexorder"
    "HOL-Library.Product_Lexorder"
begin

section \<open>Data model\<close>

text \<open>
  A transaction table is a pandas DataFrame whose rows carry the eight required columns.
  A cell that pandas holds as NaN / None is \<open>None\<close>; the generator leaves
  \<open>server_id\<close>, \<open>table_number\<close> and \<open>payment_type\<close> empty on some rows, the
  other columns are always filled. A timestamp is a datetime64 value, as the loader
  parses it (\<open>pd.to_datetime\<close> in \<open>_preprocess_data\<close> is skipped for such a column),
  read as whole seconds since 1970-01-01T00:00:00 (the sub-second part plays no role in
  what the scripts derive from it). A price is a finite double, read as the real number
  it stands for.
\<close>

record row =
  timestamp :: int
  location :: string
  server_id :: "string option"
  table_number :: "string option"
  item_name :: string
  item_category :: string
  price :: real
  payment_type :: "string option"

text \<open>The columns that \<open>_preprocess_data\<close> attaches, in the order it attaches them.\<close>

record trow = row +
  date :: int
  hour :: nat
  day_of_week :: string

record brow = trow +
  upper_bound :: "real option"
  lower_bound :: "real option"

record erow = brow +
  price_anomaly :: bool

text \<open>
  The exceptions: the \<open>ValueError\<close> of the loader's column check with the set of
  missing columns it prints, an exception of a reader, a \<open>KeyError\<close> with its label,
  and the \<open>ValueError\<close> that pandas raises when a DataFrame is assigned to the single
  column named.
\<close>

datatype error =
    ValueError "string set"
  | SourceError string
  | KeyError string
  | ValueError_setitem string

section \<open>pandas and numpy primitives\<close>

text \<open>
  \<open>groupby\<close> with the defaults \<open>sort=True, dropna=True\<close>: the group keys are the
  distinct non-missing key values in ascending order, each with its rows in table order.
\<close>

definition group_keys :: "('r \<Rightarrow> 'k option) \<Rightarrow> 'r list \<Rightarrow> ('k::linorder) list" where
  "group_keys key rs = sort (remdups (List.map_filter key rs))"

definition groupby :: "('r \<Rightarrow> 'k option) \<Rightarrow> 'r list \<Rightarrow> (('k::linorder) \<times> 'r list) list" where
  "groupby key rs = map (\<lambda>k. (k, filter (\<lambda>r. key r = Some k) rs)) (group_keys key rs)"

subsection \<open>Floating-point arithmetic\<close>

text \<open>
  The scripts compute on prices in binary floating point, inside pandas and numpy. What
  these compute is not fixed here: the arithmetic is a parameter of every function that
  uses it, and a statement about such a function holds for every arithmetic. The
  parameter gives the four operations on finite doubles (with a finite result; the
  divisor is not zero), the sum and the mean that \<open>groupby\<close> computes for the prices of
  one group, given in table order, the sample standard deviation (\<open>ddof=1\<close>) it
  computes for a group of two or more prices, and \<open>Series.sum\<close> of finite values.
  Results are taken to be finite: prices are far from the overflow threshold.
\<close>

record float_ops =
  f_add :: "real \<Rightarrow> real \<Rightarrow> real"
  f_sub :: "real \<Rightarrow> real \<Rightarrow> real"
  f_mul :: "real \<Rightarrow> real \<Rightarrow> real"
  f_div :: "real \<Rightarrow> real \<Rightarrow> real"
  group_sum :: "real list \<Rightarrow> real"
  group_mean :: "real list \<Rightarrow> real"
  group_std :: "real list \<Rightarrow> real"
  series_sum :: "real list \<Rightarrow> real"

text \<open>The sample standard deviation of a group; NaN for fewer than two values.\<close>

definition std :: "float_ops \<Rightarrow> real list \<Rightarrow> real option" where
  "std fp xs = (if length xs < 2 then None else Some (group_std fp xs))"

text \<open>\<open>rint\<close>: round to the nearest integer, a tie to the even one.\<close>

definition rint :: "real \<Rightarrow> int" where
  "rint x =
     (let f = \<lfloor>x\<rfloor>; d = x - of_int f
      in if d < 1 / 2 then f else if 1 / 2 < d then f + 1 else if even f then f else f + 1)"

text \<open>
  \<open>.round(decimals)\<close> of a float column, as numpy does it: multiply by the power of
  ten, \<open>rint\<close>, divide by the power of ten, the first and the last in floating point.
\<close>

definition fl_round :: "float_ops \<Rightarrow> nat \<Rightarrow> real \<Rightarrow> real" where
  "fl_round fp decimals x =
     f_div fp (of_int (rint (f_mul fp x (10 ^ decimals)))) (10 ^ decimals)"

text \<open>
  A float cell that need not be finite. A division by zero raises nothing: it gives NaN
  for a zero dividend and an infinity otherwise. (The sign of the infinity is that of
  the dividend: a divisor below is a count or a sum, and such a zero is the negative
  zero only when every dividend is zero too.)
\<close>

datatype fval = Fin real | PInf | NInf | NaN

definition fl_divide :: "float_ops \<Rightarrow> real \<Rightarrow> real \<Rightarrow> fval" where
  "fl_divide fp a b =
     (if b = 0 then (if a = 0 then NaN else if 0 < a then PInf else NInf)
      else Fin (f_div fp a b))"

text \<open>
  An operation applied to a cell: scaling by a positive factor and rounding leave an
  infinity and NaN as they are.
\<close>

fun fmap :: "(real \<Rightarrow> real) \<Rightarrow> fval \<Rightarrow> fval" where
  "fmap f (Fin x) = Fin (f x)"
| "fmap f PInf = PInf"
| "fmap f NInf = NInf"
| "fmap f NaN = NaN"

fun finite_values :: "fval list \<Rightarrow> real list" where
  "finite_values [] = []"
| "finite_values (Fin x # vs) = x # finite_values vs"
| "finite_values (v # vs) = finite_values vs"

text \<open>
  \<open>Series.sum()\<close> with the default \<open>skipna=True\<close>: NaN cells are left out; infinities
  of both signs sum to NaN, of one sign to that infinity.
\<close>

definition sum_skipna :: "float_ops \<Rightarrow> fval list \<Rightarrow> fval" where
  "sum_skipna fp vs =
     (if PInf \<in> set vs \<and> NInf \<in> set vs then NaN
      else if PInf \<in> set vs then PInf
      else if NInf \<in> set vs then NInf
      else Fin (series_sum fp (finite_values vs)))"

text \<open>A comparison with NaN is False.\<close>

definition gt_nan :: "real \<Rightarrow> real option \<Rightarrow> bool" where
  "gt_nan x b = (case b of None \<Rightarrow> False | Some u \<Rightarrow> u < x)"

definition lt_nan :: "real \<Rightarrow> real option \<Rightarrow> bool" where
  "lt_nan x b = (case b of None \<Rightarrow> False | Some l \<Rightarrow> x < l)"

subsection \<open>Quotients of counts\<close>

text \<open>
  The heatmap divides a count by a count and rounds the quotient to one decimal. For
  these quotients the result is given outright: the quotient rounded to the nearest
  tenth, a tie to the even one. \<open>None\<close> is a cell that is not a finite number.
\<close>

definition np_round :: "nat \<Rightarrow> real \<Rightarrow> real" where
  "np_round decimals x = of_int (rint (x * 10 ^ decimals)) / 10 ^ decimals"

definition np_divide :: "real \<Rightarrow> real \<Rightarrow> real option" where
  "np_divide a b = (if b = 0 then None else Some (a / b))"

section \<open>utils.py: the loader\<close>

text \<open>
  A loaded DataFrame as far as \<open>load_pos_data\<close> looks at it: its column labels, and
  the rest of it as an opaque payload.
\<close>

record 'd dataframe =
  columns :: "string list"
  payload :: 'd

definition required_columns :: "string list" where
  "required_columns =
     [''timestamp'', ''location'', ''server_id'', ''table_number'',
      ''item_name'', ''item_category'', ''price'', ''payment_type'']"

text \<open>
  \<open>load_pos_data\<close>. The two readers do I/O and are parameters; an exception of theirs
  is logged and re-raised unchanged, as is the \<open>ValueError\<close> of the column check,
  whose message prints the set of missing columns.
\<close>

definition load_pos_data ::
  "(string \<Rightarrow> error + 'd dataframe) \<Rightarrow> (string \<Rightarrow> error + 'd dataframe) \<Rightarrow>
   string \<Rightarrow> bool \<Rightarrow> error + 'd dataframe" where
  "load_pos_data load_pos_data_from_db load_pos_data_from_file source from_database =
     (case (if from_database then load_pos_data_from_db source
            else load_pos_data_from_file source) of
        Inl e \<Rightarrow> Inl e
      | Inr df \<Rightarrow>
          (let missing_columns = set required_columns - set (columns df)
           in if missing_columns \<noteq> {} then Inl (ValueError missing_columns) else Inr df))"

section \<open>utils.py: POSDataAnalyzer\<close>

subsection \<open>Calendar fields of a timestamp\<close>

definition weekday_names :: "string list" where
  "weekday_names =
     [''Monday'', ''Tuesday'', ''Wednesday'', ''Thursday'', ''Friday'', ''Saturday'', ''Sunday'']"

text \<open>\<open>.dt.date\<close>, as the number of the day counted from 1970-01-01.\<close>

definition dt_date :: "int \<Rightarrow> int" where
  "dt_date ts = ts div 86400"

definition dt_hour :: "int \<Rightarrow> nat" where
  "dt_hour ts = nat ((ts mod 86400) div 3600)"

text \<open>\<open>.dt.day_name()\<close>: 1970-01-01 was a Thursday.\<close>

definition dt_day_name :: "int \<Rightarrow> string" where
  "dt_day_name ts = weekday_names ! nat ((dt_date ts + 3) mod 7)"

subsection \<open>\<open>_preprocess_data\<close>, step by step\<close>

text \<open>\<open>self.df['date'] = ...\<close>, \<open>['hour']\<close>, \<open>['day_of_week']\<close>.\<close>

definition assign_time_columns :: "row \<Rightarrow> trow" where
  "assign_time_columns r =
     \<lparr>timestamp = timestamp r, location = location r, server_id = server_id r,
      table_number = table_number r, item_name = item_name r,
      item_category = item_category r, price = price r, payment_type = payment_type r,
      date = dt_date (timestamp r), hour = dt_hour (timestamp r),
      day_of_week = dt_day_name (timestamp r)\<rparr>"

text \<open>\<open>self.df['payment_type'].fillna('UNKNOWN')\<close>.\<close>

definition fillna_payment_type :: "trow \<Rightarrow> trow" where
  "fillna_payment_type r =
     r\<lparr>payment_type := Some (case payment_type r of None \<Rightarrow> ''UNKNOWN'' | Some p \<Rightarrow> p)\<rparr>"

text \<open>
  \<open>price_stats\<close>: one row per item name, with the mean and the sample standard deviation
  of its prices and the two bounds \<open>mean + 3 * std\<close> and \<open>mean - 3 * std\<close>. A bound
  computed from a NaN deviation is NaN.
\<close>

record price_stat =
  ps_item_name :: string
  ps_mean :: real
  ps_std :: "real option"
  ps_upper_bound :: "real option"
  ps_lower_bound :: "real option"

definition price_stats :: "float_ops \<Rightarrow> trow list \<Rightarrow> price_stat list" where
  "price_stats fp df =
     map (\<lambda>(k, g).
            let m = group_mean fp (map price g); s = std fp (map price g)
            in \<lparr>ps_item_name = k, ps_mean = m, ps_std = s,
                ps_upper_bound = map_option (\<lambda>sd. f_add fp m (f_mul fp 3 sd)) s,
                ps_lower_bound = map_option (\<lambda>sd. f_sub fp m (f_mul fp 3 sd)) s\<rparr>)
         (groupby (\<lambda>r. Some (item_name r)) df)"

definition with_bounds :: "trow \<Rightarrow> real option \<Rightarrow> real option \<Rightarrow> brow" where
  "with_bounds r ub lb =
     \<lparr>timestamp = timestamp r, location = location r, server_id = server_id r,
      table_number = table_number r, item_name = item_name r,
      item_category = item_category r, price = price r, payment_type = payment_type r,
      date = date r, hour = hour r, day_of_week = day_of_week r,
      upper_bound = ub, lower_bound = lb\<rparr>"

text \<open>
  \<open>merge(..., on='item_name', how='left')\<close>: the rows of the left table in their order,
  each once per matching row of the right table, or once with NaN bounds when none
  matches.
\<close>

definition merge_left :: "trow list \<Rightarrow> price_stat list \<Rightarrow> brow list" where
  "merge_left df stats =
     concat (map (\<lambda>r.
        case filter (\<lambda>s. ps_item_name s = item_name r) stats of
          [] \<Rightarrow> [with_bounds r None None]
        | ms \<Rightarrow> map (\<lambda>s. with_bounds r (ps_upper_bound s) (ps_lower_bound s)) ms) df)"

text \<open>\<open>self.df['price_anomaly'] = (price > upper_bound) | (price < lower_bound)\<close>.\<close>

definition assign_price_anomaly :: "brow \<Rightarrow> erow" where
  "assign_price_anomaly r =
     \<lparr>timestamp = timestamp r, location = location r, server_id = server_id r,
      table_number = table_number r, item_name = item_name r,
      item_category = item_category r, price = price r, payment_type = payment_type r,
      date = date r, hour = hour r, day_of_week = day_of_week r,
      upper_bound = upper_bound r, lower_bound = lower_bound r,
      price_anomaly = (gt_nan (price r) (upper_bound r) \<or> lt_nan (price r) (lower_bound r))\<rparr>"

text \<open>The table that \<open>_preprocess_data\<close> leaves in \<open>self.df\<close>, from the copied input.\<close>

definition preprocess_data :: "float_ops \<Rightarrow> row list \<Rightarrow> erow list" where
  "preprocess_data fp df =
     (let df1 = map assign_time_columns df;
          df2 = map fillna_payment_type df1;
          stats = price_stats fp df2;
          df3 = merge_left df2 stats
      in map assign_price_anomaly df3)"

subsection \<open>The constructor, on an explicit store\<close>

text \<open>
  DataFrames are objects: the caller's variable and \<open>self.df\<close> hold references. The
  store is the list of the DataFrames allocated so far, a reference is an index into it.
  A column assignment \<open>self.df[c] = ...\<close> writes the object that \<open>self.df\<close> refers to;
  \<open>df.copy()\<close> and \<open>merge\<close> allocate a new object.
\<close>

datatype frame =
    Raw "row list"
  | Timed "trow list"
  | Bounded "brow list"
  | Enriched "erow list"

type_synonym store = "frame list"

record POSDataAnalyzer =
  self_df :: nat

definition alloc :: "store \<Rightarrow> frame \<Rightarrow> store \<times> nat" where
  "alloc h f = (h @ [f], length h)"

text \<open>
  \<open>__init__(self, df)\<close> for a reference \<open>df\<close> to a table of the eight required
  columns. \<open>None\<close>: the reference is dangling or the object is not such a table.
\<close>

definition POSDataAnalyzer_init ::
  "float_ops \<Rightarrow> store \<Rightarrow> nat \<Rightarrow> (store \<times> POSDataAnalyzer) option" where
  "POSDataAnalyzer_init fp h df =
     (if df < length h then
        (case h ! df of
           Raw rows \<Rightarrow>
             (let (h1, self1) = alloc h (Raw rows);
                  t1 = map assign_time_columns rows;
                  h2 = h1[self1 := Timed t1];
                  t2 = map fillna_payment_type t1;
                  h3 = h2[self1 := Timed t2];
                  stats = price_stats fp t2;
                  (h4, self2) = alloc h3 (Bounded (merge_left t2 stats));
                  h5 = h4[self2 := Enriched (map assign_price_anomaly (merge_left t2 stats))]
              in Some (h5, \<lparr>self_df = self2\<rparr>))
         | _ \<Rightarrow> None)
      else None)"

subsection \<open>Aggregators\<close>

text \<open>
  The aggregators read \<open>self.df\<close>, the preprocessed table. The three columns of
  \<open>agg({'price': ['count', 'sum', 'mean']}).round(2)\<close>, under the names the code gives
  them, with the group key as \<open>index\<close>; a count is an integer and is left as it is by
  \<open>round\<close>.
\<close>

record metrics =
  index :: string
  transaction_count :: nat
  total_sales :: real
  avg_ticket :: real

record server_agg = metrics +
  items_sold :: nat
  price_anomalies :: nat

record server_metrics = server_agg +
  items_per_transaction :: fval

record payment_metrics = metrics +
  sales_percentage :: fval

text \<open>
  \<open>sort_values(column, ascending=False)\<close>: the rows in descending order of the column.
  The default quicksort leaves the order of rows with equal values open; here the
  parameter \<open>tie\<close> decides it, rows with the smaller \<open>tie\<close> first, and every order of
  distinct rows is that of some \<open>tie\<close>.
\<close>

definition sort_values_desc :: "('a \<Rightarrow> nat) \<Rightarrow> ('a \<Rightarrow> real) \<Rightarrow> 'a list \<Rightarrow> 'a list" where
  "sort_values_desc tie k xs = sort_key (\<lambda>x. (- k x, tie x)) xs"

definition analyze_server_performance ::
  "float_ops \<Rightarrow> (server_metrics \<Rightarrow> nat) \<Rightarrow> erow list \<Rightarrow> int \<Rightarrow> server_metrics list" where
  "analyze_server_performance fp tie df min_transactions =
     (let server_metrics0 =
            map (\<lambda>(k, g).
                   \<lparr>index = k, transaction_count = length g,
                    total_sales = fl_round fp 2 (group_sum fp (map price g)),
                    avg_ticket = fl_round fp 2 (group_mean fp (map price g)),
                    items_sold = length g,
                    price_anomalies = length (filter price_anomaly g)\<rparr>)
                (groupby server_id df);
          server_metrics1 =
            filter (\<lambda>m. min_transactions \<le> int (transaction_count m)) server_metrics0;
          server_metrics2 =
            map (\<lambda>m.
                   \<lparr>index = index m, transaction_count = transaction_count m,
                    total_sales = total_sales m, avg_ticket = metrics.avg_ticket m,
                    items_sold = items_sold m, price_anomalies = price_anomalies m,
                    items_per_transaction =
                      fmap (fl_round fp 2)
                        (fl_divide fp (real (items_sold m)) (real (transaction_count m)))\<rparr>)
                server_metrics1
      in sort_values_desc tie total_sales server_metrics2)"

definition analyze_payment_types :: "float_ops \<Rightarrow> erow list \<Rightarrow> payment_metrics list" where
  "analyze_payment_types fp df =
     (let payment_metrics0 =
            map (\<lambda>(k, g).
                   \<lparr>index = k, transaction_count = length g,
                    total_sales = fl_round fp 2 (group_sum fp (map price g)),
                    avg_ticket = fl_round fp 2 (group_mean fp (map price g))\<rparr>)
                (groupby payment_type df);
          total = series_sum fp (map total_sales payment_metrics0)
      in map (\<lambda>m.
                \<lparr>index = index m, transaction_count = transaction_count m,
                 total_sales = total_sales m, avg_ticket = metrics.avg_ticket m,
                 sales_percentage =
                   fmap (fl_round fp 2)
                     (fmap (\<lambda>q. f_mul fp q 100) (fl_divide fp (total_sales m) total))\<rparr>)
             payment_metrics0)"

section \<open>heatmap.py\<close>

text \<open>A function applied to each row in turn; the first exception ends the run.\<close>

fun traverse :: "('a \<Rightarrow> error + 'b) \<Rightarrow> 'a list \<Rightarrow> error + 'b list" where
  "traverse f [] = Inr []"
| "traverse f (x # xs) =
     (case f x of
        Inl e \<Rightarrow> Inl e
      | Inr y \<Rightarrow> (case traverse f xs of Inl e \<Rightarrow> Inl e | Inr ys \<Rightarrow> Inr (y # ys)))"

text \<open>\<open>series[label]\<close>: a label that is not in the index raises \<open>KeyError\<close>.\<close>

definition series_get :: "(string \<times> 'v) list \<Rightarrow> string \<Rightarrow> error + 'v" where
  "series_get s l = (case map_of s l of None \<Rightarrow> Inl (KeyError l) | Some v \<Rightarrow> Inr v)"

text \<open>\<open>reindex(new_index, fill_value=0)\<close> of a table with unique labels.\<close>

definition reindex_fill :: "('k \<times> nat) list \<Rightarrow> 'k list \<Rightarrow> ('k \<times> nat) list" where
  "reindex_fill s new_index =
     map (\<lambda>k. (k, case map_of s k of None \<Rightarrow> 0 | Some n \<Rightarrow> n)) new_index"

text \<open>
  \<open>pivot(index='location', columns='hour', values='avg_orders')\<close> of rows with unique
  (location, hour) pairs: one row per location and one column per hour, both ascending;
  a pair with no row is NaN.
\<close>

definition pivot ::
  "((string \<times> nat) \<times> real option) list \<Rightarrow> (string \<times> (nat \<times> real option) list) list" where
  "pivot cells =
     (let idx = sort (remdups (map (\<lambda>c. fst (fst c)) cells));
          cols = sort (remdups (map (\<lambda>c. snd (fst c)) cells))
      in map (\<lambda>l. (l, map (\<lambda>h. (h, case map_of cells (l, h) of None \<Rightarrow> None | Some v \<Rightarrow> v))
                         cols)) idx)"

definition expected_hours :: "nat list" where
  "expected_hours = [11..<23]"

text \<open>
  \<open>create_location_hour_heatmap\<close> up to \<open>heatmap_data\<close>, the table that is drawn; the
  drawing itself is not modelled. On a table without rows, \<open>apply\<close> gives a DataFrame
  and not a column, and its assignment to \<open>avg_orders\<close> raises.
\<close>

definition create_location_hour_heatmap ::
  "erow list \<Rightarrow> error + (string \<times> (nat \<times> real option) list) list" where
  "create_location_hour_heatmap df =
     (let location_days =
            map (\<lambda>(k, g). (k, length (remdups (map date g))))
                (groupby (\<lambda>r. Some (location r)) df);
          hourly_totals0 =
            map (\<lambda>(k, g). (k, length g)) (groupby (\<lambda>r. Some (location r, hour r)) df);
          all_combinations = List.product (map fst location_days) expected_hours;
          hourly_totals = reindex_fill hourly_totals0 all_combinations
      in if hourly_totals = [] then Inl (ValueError_setitem ''avg_orders'')
         else
           case traverse
                  (\<lambda>((l, h), total_orders).
                     case series_get location_days l of
                       Inl e \<Rightarrow> Inl e
                     | Inr days \<Rightarrow>
                         Inr ((l, h),
                              map_option (np_round 1)
                                (np_divide (real total_orders) (real days))))
                  hourly_totals of
             Inl e \<Rightarrow> Inl e
           | Inr avg_orders \<Rightarrow> Inr (pivot avg_orders))"

text \<open>The cell of \<open>heatmap_data\<close> at a location and an hour, if the table has one.\<close>

definition heatmap_cell ::
  "(string \<times> (nat \<times> real option) list) list \<Rightarrow> string \<Rightarrow> nat \<Rightarrow> real option option" where
  "heatmap_cell hm l h = (case map_of hm l of None \<Rightarrow> None | Some cols \<Rightarrow> map_of cols h)"

section \<open>ave_ticket_by_day.py\<close>

text \<open>
  A row of \<open>daily_avg\<close> after \<open>reindex\<close>: float cells, NaN where the label was not in
  the index before.
\<close>

record daily_avg =
  avg_ticket :: "real option"
  num_orders :: "real option"
  total_revenue :: "real option"

text \<open>\<open>reindex(labels)\<close> without a fill value: a new label gets NaN in every column.\<close>

definition reindex_nan :: "(string \<times> daily_avg) list \<Rightarrow> string list \<Rightarrow> (string \<times> daily_avg) list" where
  "reindex_nan s new_index =
     map (\<lambda>k. (k, case map_of s k of
                     None \<Rightarrow> \<lparr>avg_ticket = None, num_orders = None, total_revenue = None\<rparr>
                   | Some v \<Rightarrow> v)) new_index"

text \<open>
  \<open>analyze_daily_average_tickets\<close> up to the reindexed \<open>daily_avg\<close>, the summary that
  is printed and drawn. Its argument is the loaded table, not an analyzer.
\<close>

definition analyze_daily_average_tickets ::
  "float_ops \<Rightarrow> row list \<Rightarrow> (string \<times> daily_avg) list" where
  "analyze_daily_average_tickets fp df =
     (let daily_avg0 =
            map (\<lambda>(k, g).
                   (k, \<lparr>avg_ticket = Some (fl_round fp 2 (group_mean fp (map price g))),
                        num_orders = Some (real (length g)),
                        total_revenue = Some (fl_round fp 2 (group_sum fp (map price g)))\<rparr>))
                (groupby (\<lambda>r. Some (dt_day_name (timestamp r))) df)
      in reindex_nan daily_avg0
           [''Monday'', ''Tuesday'', ''Wednesday'', ''Thursday'', ''Friday'', ''Saturday'',
            ''Sunday''])"

section \<open>Definitions for the statements and proofs\<close>

subsection \<open>The anomaly band as the specification words it\<close>



subsection \<open>The rows of the summaries, from the table\<close>

text \<open>
  The row of the server summary for a server id: the count of its rows, the sum and the
  mean of their prices rounded to two decimals, the items sold, the anomalies, and the
  items per transaction.
\<close>

definition server_row :: "float_ops \<Rightarrow> erow list \<Rightarrow> string \<Rightarrow> server_metrics" where
  "server_row fp df k =
     (let g = filter (\<lambda>r. server_id r = Some k) df
      in \<lparr>index = k, transaction_count = length g,
          total_sales = fl_round fp 2 (group_sum fp (map price g)),
          avg_ticket = fl_round fp 2 (group_mean fp (map price g)),
          items_sold = length g,
          price_anomalies = length (filter price_anomaly g),
          items_per_transaction =
            fmap (fl_round fp 2) (fl_divide fp (real (length g)) (real (length g)))\<rparr>)"

subsection \<open>Error bounds of the arithmetic\<close>

text \<open>
  The standard model of floating-point arithmetic, as far as the payment summary relies
  on it: a product and a quotient have a relative error of at most \<open>eps\<close>, and a sum
  differs from the exact sum by at most \<open>eps\<close> times the sum of the absolute values.
  IEEE arithmetic meets it with \<open>eps\<close> the number of summands times the unit roundoff,
  as long as no result overflows or underflows.
\<close>

definition standard_model :: "float_ops \<Rightarrow> real \<Rightarrow> bool" where
  "standard_model fp eps \<longleftrightarrow>
     0 \<le> eps
     \<and> (\<forall>a b. \<bar>f_mul fp a b - a * b\<bar> \<le> eps * \<bar>a * b\<bar>)
     \<and> (\<forall>a b. b \<noteq> 0 \<longrightarrow> \<bar>f_div fp a b - a / b\<bar> \<le> eps * \<bar>a / b\<bar>)
     \<and> (\<forall>xs. \<bar>group_sum fp xs - sum_list xs\<bar> \<le> eps * sum_list (map abs xs))
     \<and> (\<forall>xs. \<bar>series_sum fp xs - sum_list xs\<bar> \<le> eps * sum_list (map abs xs))"

text \<open>Exact arithmetic, an arithmetic without rounding error.\<close>

definition exact_ops :: float_ops where
  "exact_ops =
     \<lparr>f_add = (+), f_sub = (-), f_mul = (*), f_div = (/),
      group_sum = sum_list,
      group_mean = (\<lambda>xs. sum_list xs / real (length xs)),
      group_std = (\<lambda>xs. sqrt (sum_list (map (\<lambda>x. (x - sum_list xs / real (length xs))\<^sup>2) xs)
                               / real (length xs - 1))),
      series_sum = sum_list\<rparr>"

subsection \<open>Counts behind a heatmap cell\<close>

text \<open>
  The orders of a location in an hour, and the distinct calendar dates on which the
  location has any row.
\<close>

definition n_orders :: "erow list \<Rightarrow> string \<Rightarrow> nat \<Rightarrow> nat" where
  "n_orders df l h = length (filter (\<lambda>x. location x = l \<and> hour x = h) df)"

definition n_dates :: "erow list \<Rightarrow> string \<Rightarrow> nat" where
  "n_dates df l = length (remdups (map date (filter (\<lambda>x. location x = l) df)))"

subsection \<open>Auxiliary definitions\<close>

text \<open>
  The row of \<open>price_stats\<close> for one item name, the prices of an item in a table, and
  the enriched form of one row.
\<close>

definition stat_of :: "float_ops \<Rightarrow> trow list \<Rightarrow> string \<Rightarrow> price_stat" where
  "stat_of fp df k =
     (let g = filter (\<lambda>r. item_name r = k) df;
          m = group_mean fp (map price g); s = std fp (map price g)
      in \<lparr>ps_item_name = k, ps_mean = m, ps_std = s,
          ps_upper_bound = map_option (\<lambda>sd. f_add fp m (f_mul fp 3 sd)) s,
          ps_lower_bound = map_option (\<lambda>sd. f_sub fp m (f_mul fp 3 sd)) s\<rparr>)"

definition item_prices :: "row list \<Rightarrow> string \<Rightarrow> real list" where
  "item_prices t name = map price (filter (\<lambda>r. item_name r = name) t)"

definition enrich :: "float_ops \<Rightarrow> row list \<Rightarrow> row \<Rightarrow> erow" where
  "enrich fp t r =
     (let xs = item_prices t (item_name r); r2 = fillna_payment_type (assign_time_columns r);
          m = group_mean fp xs
      in assign_price_anomaly
           (with_bounds r2 (map_option (\<lambda>sd. f_add fp m (f_mul fp 3 sd)) (std fp xs))
                           (map_option (\<lambda>sd. f_sub fp m (f_mul fp 3 sd)) (std fp xs))))"

text \<open>One row of the payment summary, and one heatmap cell.\<close>

definition payment_row :: "float_ops \<Rightarrow> erow list \<Rightarrow> string \<Rightarrow> metrics" where
  "payment_row fp df k =
     (let g = filter (\<lambda>r. payment_type r = Some k) df
      in \<lparr>index = k, transaction_count = length g,
          total_sales = fl_round fp 2 (group_sum fp (map price g)),
          avg_ticket = fl_round fp 2 (group_mean fp (map price g))\<rparr>)"

definition payment_pct :: "float_ops \<Rightarrow> real \<Rightarrow> metrics \<Rightarrow> payment_metrics" where
  "payment_pct fp tot m =
     \<lparr>index = index m, transaction_count = transaction_count m,
      total_sales = total_sales m, avg_ticket = metrics.avg_ticket m,
      sales_percentage =
        fmap (fl_round fp 2) (fmap (\<lambda>q. f_mul fp q 100) (fl_divide fp (total_sales m) tot))\<rparr>"

definition avg_cell :: "erow list \<Rightarrow> string \<times> nat \<Rightarrow> (string \<times> nat) \<times> real option" where
  "avg_cell df k =
     (k, Some (np_round 1 (real (n_orders df (fst k) (snd k)) / real (n_dates df (fst k)))))"

text \<open>Rows of concrete tables: with a chosen item name and price, and with more chosen.\<close>

definition sample_row :: "string \<Rightarrow> real \<Rightarrow> row" where
  "sample_row name p =
     \<lparr>timestamp = 1704110400, location = ''Downtown'', server_id = Some ''S001'',
      table_number = None, item_name = name, item_category = ''Main'', price = p,
      payment_type = None\<rparr>"

definition pos_row ::
  "int \<Rightarrow> string \<Rightarrow> string option \<Rightarrow> string \<Rightarrow> real \<Rightarrow> string option \<Rightarrow> row" where
  "pos_row ts loc srv name p pay =
     \<lparr>timestamp = ts, location = loc, server_id = srv, table_number = None,
      item_name = name, item_category = ''Main'', price = p, payment_type = pay\<rparr>"

text \<open>
  A small concrete table: three rows at the airport (two at noon on consecutive
  days, one at nine in the morning of a third day) and one at the mall.
\<close>

definition heatmap_sample :: "row list" where
  "heatmap_sample =
     [pos_row 1704110400 ''Airport'' (Some ''S001'') ''Burger'' 10 (Some ''CASH''),
      pos_row 1704198600 ''Airport'' (Some ''S002'') ''Burger'' 5 (Some ''CREDIT''),
      pos_row 1704114000 ''Mall'' (Some ''S001'') ''Soda'' 7 None,
      pos_row 1704272400 ''Airport'' None ''Soda'' 3 None]"

text \<open>
  Three payment types whose totals cancel, and an arithmetic that is exact but for the
  sum of these three totals, for which it gives a rounding error in place of zero.
\<close>

definition cancelling_sample :: "row list" where
  "cancelling_sample =
     [pos_row 1704110400 ''Airport'' (Some ''S001'') ''Burger'' (1 / 10) (Some ''CASH''),
      pos_row 1704110400 ''Airport'' (Some ''S001'') ''Burger'' (2 / 10) (Some ''CREDIT''),
      pos_row 1704110400 ''Airport'' (Some ''S001'') ''Refund'' (- 3 / 10) (Some ''DEBIT'')]"

definition cancelling_ops :: float_ops where
  "cancelling_ops =
     exact_ops\<lparr>series_sum :=
       (\<lambda>xs. if xs = [1 / 10, 2 / 10, - 3 / 10] then 1 / 2 ^ 54 else sum_list xs)\<rparr>"

section \<open>Auxiliary facts\<close>

subsection \<open>Grouping\<close>

lemma set_group_keys: "set (group_keys key rs) = {k. \<exists>r\<in>set rs. key r = Some k}"
proof -
  have "set (List.map_filter key rs) = {k. \<exists>r\<in>set rs. key r = Some k}"
    by (induction rs) (auto simp: List.map_filter_simps split: option.splits)
  then show ?thesis by (simp add: group_keys_def)
qed

lemma distinct_group_keys: "distinct (group_keys key rs)"
  by (simp add: group_keys_def)

lemma filter_eq_distinct: "distinct xs \<Longrightarrow> x \<in> set xs \<Longrightarrow> filter (\<lambda>y. y = x) xs = [x]"
  by (induction xs) (auto simp: filter_empty_conv)

subsection \<open>Preprocessing is a row-wise map\<close>

lemma price_stats_alt:
  "price_stats fp df = map (stat_of fp df) (group_keys (\<lambda>r. Some (item_name r)) df)"
  by (simp add: price_stats_def groupby_def stat_of_def Let_def comp_def)

lemma filter_price_stats:
  assumes "r \<in> set df"
  shows "filter (\<lambda>s. ps_item_name s = item_name r) (price_stats fp df)
           = [stat_of fp df (item_name r)]"
proof -
  have k: "item_name r \<in> set (group_keys (\<lambda>r. Some (item_name r)) df)"
    using assms by (auto simp: set_group_keys)
  have n: "ps_item_name (stat_of fp df k) = k" for k
    by (simp add: stat_of_def Let_def)
  have "filter (\<lambda>s. ps_item_name s = item_name r) (price_stats fp df)
        = map (stat_of fp df)
            (filter (\<lambda>k. k = item_name r) (group_keys (\<lambda>r. Some (item_name r)) df))"
    by (simp add: price_stats_alt filter_map comp_def n)
  also have "\<dots> = [stat_of fp df (item_name r)]"
    using filter_eq_distinct [OF distinct_group_keys k] by simp
  finally show ?thesis .
qed

lemma merge_left_price_stats:
  "merge_left df (price_stats fp df)
     = map (\<lambda>r. with_bounds r (ps_upper_bound (stat_of fp df (item_name r)))
                               (ps_lower_bound (stat_of fp df (item_name r)))) df"
proof -
  have "concat (map (\<lambda>r.
        case filter (\<lambda>s. ps_item_name s = item_name r) (price_stats fp df) of
          [] \<Rightarrow> [with_bounds r None None]
        | ms \<Rightarrow> map (\<lambda>s. with_bounds r (ps_upper_bound s) (ps_lower_bound s)) ms) df)
     = concat (map (\<lambda>r. [with_bounds r (ps_upper_bound (stat_of fp df (item_name r)))
                               (ps_lower_bound (stat_of fp df (item_name r)))]) df)"
    by (rule arg_cong [where f = concat], rule map_cong) (simp_all add: filter_price_stats)
  then show ?thesis
    by (simp add: merge_left_def concat_map_singleton)
qed

lemma time_fill_item_name [simp]:
  "item_name (fillna_payment_type (assign_time_columns r)) = item_name r"
  by (simp add: fillna_payment_type_def assign_time_columns_def)

lemma time_fill_price [simp]: "price (fillna_payment_type (assign_time_columns r)) = price r"
  by (simp add: fillna_payment_type_def assign_time_columns_def)

lemma item_prices_time_fill:
  "map price (filter (\<lambda>r. item_name r = k)
                (map (\<lambda>r. fillna_payment_type (assign_time_columns r)) t))
     = item_prices t k"
  by (simp add: item_prices_def filter_map comp_def)

lemma preprocess_data_map: "preprocess_data fp t = map (enrich fp t) t"
  by (simp add: preprocess_data_def Let_def merge_left_price_stats comp_def stat_of_def
      item_prices_time_fill enrich_def)

lemma enrich_fields:
  "item_name (enrich fp t r) = item_name r" "price (enrich fp t r) = price r"
  "timestamp (enrich fp t r) = timestamp r" "location (enrich fp t r) = location r"
  "server_id (enrich fp t r) = server_id r" "table_number (enrich fp t r) = table_number r"
  "item_category (enrich fp t r) = item_category r"
  by (simp_all add: enrich_def Let_def assign_price_anomaly_def with_bounds_def
      fillna_payment_type_def assign_time_columns_def)

lemma enrich_more_fields:
  "payment_type (enrich fp t r)
     = Some (case payment_type r of None \<Rightarrow> ''UNKNOWN'' | Some p \<Rightarrow> p)"
  "date (enrich fp t r) = dt_date (timestamp r)"
  "hour (enrich fp t r) = dt_hour (timestamp r)"
  "day_of_week (enrich fp t r) = dt_day_name (timestamp r)"
  by (simp_all add: enrich_def Let_def assign_price_anomaly_def with_bounds_def
      fillna_payment_type_def assign_time_columns_def)

lemmas enrich_sel = enrich_fields enrich_more_fields

lemma enrich_anomaly:
  "price_anomaly (enrich fp t r) =
     (let xs = item_prices t (item_name r); m = group_mean fp xs
      in gt_nan (price r) (map_option (\<lambda>sd. f_add fp m (f_mul fp 3 sd)) (std fp xs))
         \<or> lt_nan (price r) (map_option (\<lambda>sd. f_sub fp m (f_mul fp 3 sd)) (std fp xs)))"
  by (simp add: enrich_def Let_def assign_price_anomaly_def with_bounds_def)


lemma sample_row_sel [simp]: "item_name (sample_row n p) = n" "price (sample_row n p) = p"
  by (simp_all add: sample_row_def)

lemma pos_row_sel [simp]:
  "timestamp (pos_row ts loc srv name p pay) = ts"
  "location (pos_row ts loc srv name p pay) = loc"
  "server_id (pos_row ts loc srv name p pay) = srv"
  "item_name (pos_row ts loc srv name p pay) = name"
  "price (pos_row ts loc srv name p pay) = p"
  "payment_type (pos_row ts loc srv name p pay) = pay"
  by (simp_all add: pos_row_def)

lemma exact_ops_sel [simp]:
  "f_add exact_ops = (+)" "f_sub exact_ops = (-)" "f_mul exact_ops = (*)"
  "f_div exact_ops = (/)" "group_sum exact_ops = sum_list" "series_sum exact_ops = sum_list"
  "group_mean exact_ops xs = sum_list xs / real (length xs)"
  "group_std exact_ops xs
     = sqrt (sum_list (map (\<lambda>x. (x - sum_list xs / real (length xs))\<^sup>2) xs)
             / real (length xs - 1))"
  by (simp_all add: exact_ops_def)

subsection \<open>Reindexing the weekday summary\<close>

lemma map_of_groupby_map:
  "map_of (map (\<lambda>(k, g). (k, f g)) (groupby key rs)) k
     = (if k \<in> set (group_keys key rs) then Some (f (filter (\<lambda>r. key r = Some k) rs)) else None)"
proof -
  have "map (\<lambda>(k, g). (k, f g)) (groupby key rs)
          = map (\<lambda>k. (k, f (filter (\<lambda>r. key r = Some k) rs))) (group_keys key rs)"
    by (simp add: groupby_def comp_def)
  then show ?thesis
    by (simp add: map_of_map_restrict restrict_map_def)
qed

lemma map_fst_reindex_nan: "map fst (reindex_nan s new_index) = new_index"
  by (simp add: reindex_nan_def comp_def)

lemma map_of_reindex_nan:
  "k \<in> set new_index \<Longrightarrow>
   map_of (reindex_nan s new_index) k
     = Some (case map_of s k of
               None \<Rightarrow> \<lparr>avg_ticket = None, num_orders = None, total_revenue = None\<rparr>
             | Some v \<Rightarrow> v)"
  by (simp add: reindex_nan_def map_of_map_restrict restrict_map_def)

subsection \<open>The heatmap\<close>

lemma np_round_0 [simp]: "np_round d 0 = 0"
  by (simp add: np_round_def rint_def)

lemma map_of_keyed:
  "map_of (map (\<lambda>k. (k, f k)) ks) k = (if k \<in> set ks then Some (f k) else None)"
  by (simp add: map_of_map_restrict restrict_map_def)

lemma traverse_all_Inr:
  "(\<And>x. x \<in> set xs \<Longrightarrow> f x = Inr (g x)) \<Longrightarrow> traverse f xs = Inr (map g xs)"
  by (induction xs) simp_all

lemma n_dates_card: "n_dates df l = card (date ` {x \<in> set df. location x = l})"
  unfolding n_dates_def length_remdups_card_conv
  by (rule arg_cong [where f = card]) auto

lemma n_dates_pos: "l \<in> location ` set df \<Longrightarrow> 0 < n_dates df l"
  unfolding n_dates_card by (auto simp: card_gt_0_iff)

lemma location_days_alt:
  "map (\<lambda>(k, g). (k, length (remdups (map date g)))) (groupby (\<lambda>r. Some (location r)) df)
     = map (\<lambda>l. (l, n_dates df l)) (group_keys (\<lambda>r. Some (location r)) df)"
  by (simp add: groupby_def comp_def n_dates_def)

lemma set_location_keys:
  "set (group_keys (\<lambda>r. Some (location r)) df) = location ` set df"
  by (auto simp: set_group_keys)

lemma hourly_totals_alt:
  "map (\<lambda>(k, g). (k, length g)) (groupby (\<lambda>r. Some (location r, hour r)) df)
     = map (\<lambda>k. (k, n_orders df (fst k) (snd k))) (group_keys (\<lambda>r. Some (location r, hour r)) df)"
proof -
  have "filter (\<lambda>r. location r = fst k \<and> hour r = snd k) df
          = filter (\<lambda>x. location x = fst k \<and> hour x = snd k) df" for k :: "string \<times> nat"
    by simp
  show ?thesis
    by (simp add: groupby_def comp_def n_orders_def prod_eq_iff)
qed

lemma n_orders_absent:
  "k \<notin> set (group_keys (\<lambda>r. Some (location r, hour r)) df) \<Longrightarrow> n_orders df (fst k) (snd k) = 0"
  by (auto simp: set_group_keys n_orders_def filter_empty_conv prod_eq_iff)

lemma reindex_hourly_totals:
  "reindex_fill (map (\<lambda>k. (k, n_orders df (fst k) (snd k)))
                   (group_keys (\<lambda>r. Some (location r, hour r)) df)) ks
     = map (\<lambda>k. (k, n_orders df (fst k) (snd k))) ks"
  unfolding reindex_fill_def
  by (rule map_cong) (simp_all add: map_of_keyed n_orders_absent)

lemma heatmap_alt:
  assumes "df \<noteq> []"
  shows "create_location_hour_heatmap df
     = Inr (pivot (map (avg_cell df)
                     (List.product (group_keys (\<lambda>r. Some (location r)) df) expected_hours)))"
proof -
  let ?locs = "group_keys (\<lambda>r. Some (location r)) df"
  let ?days = "map (\<lambda>l. (l, n_dates df l)) ?locs"
  let ?ks = "List.product ?locs expected_hours"
  let ?f = "\<lambda>((l, h), total_orders).
                   case series_get ?days l of
                     Inl e \<Rightarrow> Inl e
                   | Inr days \<Rightarrow>
                       Inr ((l, h),
                            map_option (np_round 1)
                              (np_divide (real total_orders) (real days)))"
  have f: "?f x = Inr (avg_cell df (fst x))"
    if "x \<in> set (map (\<lambda>k. (k, n_orders df (fst k) (snd k))) ?ks)" for x
  proof -
    from that obtain l h where x: "x = ((l, h), n_orders df l h)" and l: "l \<in> set ?locs"
      by auto
    from l have "0 < n_dates df l"
      by (simp add: set_location_keys n_dates_pos)
    with l show ?thesis
      by (simp add: x series_get_def map_of_keyed np_divide_def avg_cell_def)
  qed
  have t: "traverse ?f (map (\<lambda>k. (k, n_orders df (fst k) (snd k))) ?ks)
             = Inr (map (\<lambda>x. avg_cell df (fst x)) (map (\<lambda>k. (k, n_orders df (fst k) (snd k))) ?ks))"
    by (rule traverse_all_Inr) (rule f)
  have m: "map (\<lambda>x. avg_cell df (fst x)) (map (\<lambda>k. (k, n_orders df (fst k) (snd k))) ?ks)
             = map (avg_cell df) ?ks"
    by (simp add: comp_def)
  have fst_days: "map fst ?days = ?locs"
    by (simp add: comp_def)
  have "set ?locs \<noteq> {}"
    using assms by (simp add: set_location_keys)
  then have "length ?locs \<noteq> 0"
    by simp
  then have "length ?ks \<noteq> 0"
    by (simp only: length_product) (simp add: expected_hours_def)
  then have "?ks \<noteq> []"
    by (simp only: length_0_conv not_False_eq_True)
  then have ne: "map (\<lambda>k. (k, n_orders df (fst k) (snd k))) ?ks \<noteq> []"
    by simp
  show ?thesis
    unfolding create_location_hour_heatmap_def Let_def location_days_alt hourly_totals_alt
      fst_days reindex_hourly_totals t m
    using ne by simp
qed

lemma heatmap_cell_pivot:
  "heatmap_cell (pivot cells) l h
     = (if l \<in> (\<lambda>c. fst (fst c)) ` set cells \<and> h \<in> (\<lambda>c. snd (fst c)) ` set cells
        then Some (case map_of cells (l, h) of None \<Rightarrow> None | Some v \<Rightarrow> v) else None)"
  by (simp add: heatmap_cell_def pivot_def Let_def map_of_keyed)

lemma expected_hours_set: "h \<in> set expected_hours \<longleftrightarrow> 11 \<le> h \<and> h \<le> 22"
  by (simp only: expected_hours_def set_upt) auto

lemma heatmap_cells:
  assumes "df \<noteq> []"
  shows "\<exists>hm. create_location_hour_heatmap df = Inr hm
     \<and> (\<forall>l h. heatmap_cell hm l h
           = (if l \<in> location ` set df \<and> 11 \<le> h \<and> h \<le> 22
              then Some (Some (np_round 1 (real (n_orders df l h) / real (n_dates df l))))
              else None))"
proof -
  let ?locs = "group_keys (\<lambda>r. Some (location r)) df"
  let ?ks = "List.product ?locs expected_hours"
  let ?cells = "map (avg_cell df) ?ks"
  have k: "fst c = fst (avg_cell df (fst c))" if "c \<in> set ?cells" for c
    using that by (auto simp: avg_cell_def)
  have c: "?cells = map (\<lambda>k. (k, Some (np_round 1 (real (n_orders df (fst k) (snd k)) / real (n_dates df (fst k)))))) ?ks"
    by (simp add: avg_cell_def)
  have e: "set expected_hours \<noteq> {}" by (simp add: expected_hours_def)
  have ks: "set ?ks = location ` set df \<times> set expected_hours"
    by (simp only: set_product set_location_keys)
  have "(\<lambda>c. fst (fst c)) ` set ?cells = fst ` set ?ks"
    by (simp add: avg_cell_def image_image)
  then have i1: "(\<lambda>c. fst (fst c)) ` set ?cells = location ` set df"
    unfolding ks using e by (simp only: fst_image_times if_False)
  have "(\<lambda>c. snd (fst c)) ` set ?cells = snd ` set ?ks"
    by (simp add: avg_cell_def image_image)
  then have i2: "(\<lambda>c. snd (fst c)) ` set ?cells
                   = (if location ` set df = {} then {} else set expected_hours)"
    unfolding ks by (simp only: snd_image_times)
  have cell: "heatmap_cell (pivot ?cells) l h
           = (if l \<in> location ` set df \<and> 11 \<le> h \<and> h \<le> 22
              then Some (Some (np_round 1 (real (n_orders df l h) / real (n_dates df l))))
              else None)" for l h
    unfolding heatmap_cell_pivot i1 i2 unfolding c map_of_keyed
    by (auto simp: ks expected_hours_set set_location_keys)
  show ?thesis
    unfolding heatmap_alt [OF assms] using cell by blast
qed

lemma n_orders_operating_hours:
  "11 \<le> h \<Longrightarrow> h \<le> 22 \<Longrightarrow>
   n_orders (filter (\<lambda>x. 11 \<le> hour x \<and> hour x \<le> 22) df) l h = n_orders df l h"
  unfolding n_orders_def filter_filter
  by (rule arg_cong [where f = length], rule filter_cong) auto

lemma sample_times:
  "dt_hour 1704110400 = 12" "dt_hour 1704198600 = 12" "dt_hour 1704114000 = 13"
  "dt_hour 1704272400 = 9"
  "dt_date 1704110400 = 19723" "dt_date 1704198600 = 19724" "dt_date 1704114000 = 19723"
  "dt_date 1704272400 = 19725"
  by (simp_all add: dt_hour_def dt_date_def)

subsection \<open>The server summary\<close>

lemma server_row_sel [simp]:
  "index (server_row fp df k) = k"
  "transaction_count (server_row fp df k) = length (filter (\<lambda>r. server_id r = Some k) df)"
  "total_sales (server_row fp df k)
     = fl_round fp 2 (group_sum fp (map price (filter (\<lambda>r. server_id r = Some k) df)))"
  by (simp_all add: server_row_def Let_def)

lemma analyze_server_performance_alt:
  "analyze_server_performance fp tie df n
     = sort_values_desc tie total_sales
         (map (server_row fp df)
            (filter (\<lambda>k. n \<le> int (length (filter (\<lambda>r. server_id r = Some k) df)))
               (group_keys server_id df)))"
proof -
  have "analyze_server_performance fp tie df n
     = sort_values_desc tie total_sales
         (map (\<lambda>k. server_row fp df k)
            (filter (\<lambda>k. n \<le> int (length (filter (\<lambda>r. server_id r = Some k) df)))
               (group_keys server_id df)))"
    unfolding server_row_def
    by (simp add: analyze_server_performance_def Let_def groupby_def filter_map comp_def)
  then show ?thesis by simp
qed

lemma sorted_sort_values_desc:
  "sorted_wrt (\<lambda>a b. k b \<le> k a) (sort_values_desc tie k xs)"
proof -
  have "sorted (map (\<lambda>x. (- k x, tie x)) (sort_key (\<lambda>x. (- k x, tie x)) xs))"
    by (rule sorted_sort_key)
  then have "sorted_wrt (\<lambda>a b. (- k a, tie a) \<le> (- k b, tie b)) (sort_values_desc tie k xs)"
    by (simp add: sort_values_desc_def sorted_map)
  then show ?thesis
    by (rule sorted_wrt_mono_rel [rotated]) (auto simp: less_eq_prod_def)
qed

lemma set_sort_values_desc [simp]: "set (sort_values_desc tie k xs) = set xs"
  by (simp add: sort_values_desc_def)

lemma distinct_map_sort_values_desc:
  "distinct (map f (sort_values_desc tie k xs)) = distinct (map f xs)"
  by (simp add: sort_values_desc_def distinct_map)

subsection \<open>Rounding, and the payment summary\<close>

lemma rint_error: "\<bar>of_int (rint x) - x\<bar> \<le> 1 / 2"
proof -
  have "of_int \<lfloor>x\<rfloor> \<le> x" "x < of_int \<lfloor>x\<rfloor> + 1"
    by linarith+
  then show ?thesis
    unfolding rint_def Let_def by (auto simp: abs_le_iff)
qed

lemma rint_nonneg: "0 \<le> x \<Longrightarrow> 0 \<le> rint x"
proof -
  assume "0 \<le> x"
  then have "0 \<le> \<lfloor>x\<rfloor>" by simp
  then show ?thesis
    unfolding rint_def Let_def by auto
qed

lemma sm_eps: "standard_model fp eps \<Longrightarrow> 0 \<le> eps"
  by (simp add: standard_model_def)

lemma sm_mul: "standard_model fp eps \<Longrightarrow> \<bar>f_mul fp a b - a * b\<bar> \<le> eps * \<bar>a * b\<bar>"
  by (simp add: standard_model_def)

lemma sm_div:
  "standard_model fp eps \<Longrightarrow> b \<noteq> 0 \<Longrightarrow> \<bar>f_div fp a b - a / b\<bar> \<le> eps * \<bar>a / b\<bar>"
  by (simp add: standard_model_def)

lemma sm_group_sum:
  "standard_model fp eps \<Longrightarrow> \<bar>group_sum fp xs - sum_list xs\<bar> \<le> eps * sum_list (map abs xs)"
  by (simp add: standard_model_def)

lemma sm_series_sum:
  "standard_model fp eps \<Longrightarrow> \<bar>series_sum fp xs - sum_list xs\<bar> \<le> eps * sum_list (map abs xs)"
  by (simp add: standard_model_def)

lemma sm_mul_zero [simp]: "standard_model fp eps \<Longrightarrow> f_mul fp 0 b = 0"
  using sm_mul [of fp eps 0 b] by simp

lemma sm_div_zero [simp]: "standard_model fp eps \<Longrightarrow> b \<noteq> 0 \<Longrightarrow> f_div fp 0 b = 0"
  using sm_div [of fp eps b 0] by simp

lemma sm_round_zero [simp]: "standard_model fp eps \<Longrightarrow> fl_round fp d 0 = 0"
  by (simp add: fl_round_def rint_def)

lemma standard_model_exact: "standard_model exact_ops 0"
  by (simp add: standard_model_def)

lemma rel_bounds:
  fixes x c e :: real
  assumes "\<bar>x - c\<bar> \<le> e * c"
  shows "(1 - e) * c \<le> x" and "x \<le> (1 + e) * c"
  using assms by (simp_all add: abs_le_iff algebra_simps)

lemma rel_abs:
  fixes x c e :: real
  assumes "(1 - e) * c \<le> x" and "x \<le> (1 + e) * c"
  shows "\<bar>x - c\<bar> \<le> e * c"
  using assms by (simp add: abs_le_iff algebra_simps)

text \<open>A product and a quotient of non-negative numbers, between their exact bounds.\<close>

lemma sm_mul_bounds:
  assumes "standard_model fp eps" and "0 \<le> a" and "0 \<le> b"
  shows "(1 - eps) * (a * b) \<le> f_mul fp a b" and "f_mul fp a b \<le> (1 + eps) * (a * b)"
proof -
  have n: "0 \<le> a * b" using assms by simp
  have "\<bar>f_mul fp a b - a * b\<bar> \<le> eps * \<bar>a * b\<bar>"
    by (rule sm_mul [OF assms(1)])
  then have "\<bar>f_mul fp a b - a * b\<bar> \<le> eps * (a * b)"
    by (simp only: abs_of_nonneg [OF n])
  then show "(1 - eps) * (a * b) \<le> f_mul fp a b" and "f_mul fp a b \<le> (1 + eps) * (a * b)"
    by (rule rel_bounds)+
qed

lemma sm_div_bounds:
  assumes "standard_model fp eps" and "0 \<le> a" and "0 < b"
  shows "(1 - eps) * (a / b) \<le> f_div fp a b" and "f_div fp a b \<le> (1 + eps) * (a / b)"
proof -
  have n: "0 \<le> a / b" using assms by simp
  have b: "b \<noteq> 0" using assms(3) by simp
  have "\<bar>f_div fp a b - a / b\<bar> \<le> eps * \<bar>a / b\<bar>"
    by (rule sm_div [OF assms(1) b])
  then have "\<bar>f_div fp a b - a / b\<bar> \<le> eps * (a / b)"
    by (simp only: abs_of_nonneg [OF n])
  then show "(1 - eps) * (a / b) \<le> f_div fp a b" and "f_div fp a b \<le> (1 + eps) * (a / b)"
    by (rule rel_bounds)+
qed

text \<open>Rounding a non-negative number to two decimals.\<close>

lemma fl_round_2_error:
  assumes sm: "standard_model fp eps" and e: "eps \<le> 1" and r: "0 \<le> r"
  shows "\<bar>fl_round fp 2 r - r\<bar> \<le> (1 + eps) / 200 + eps * (2 + eps) * r"
    and "0 \<le> fl_round fp 2 r"
proof -
  define c where "c = r * 100"
  define y where "y = f_mul fp r 100"
  define z :: real where "z = of_int (rint y)"
  define w where "w = z / 100"
  define p where "p = f_div fp z 100"
  have p: "fl_round fp 2 r = p"
    by (simp add: fl_round_def p_def z_def y_def)
  have e0: "0 \<le> eps" by (rule sm_eps [OF sm])
  have e1: "0 \<le> 1 - eps" using e by simp
  have c0: "0 \<le> c" using r by (simp add: c_def)
  have y1: "(1 - eps) * c \<le> y" and y2: "y \<le> (1 + eps) * c"
    unfolding y_def c_def using sm_mul_bounds [OF sm r, of 100] by simp_all
  have "0 \<le> (1 - eps) * c"
    using e1 c0 by (rule mult_nonneg_nonneg)
  with y1 have y0: "0 \<le> y" by linarith
  then have z0: "0 \<le> z"
    unfolding z_def using rint_nonneg [of y] by simp
  then have w0: "0 \<le> w" by (simp add: w_def)
  have zy: "\<bar>z - y\<bar> \<le> 1 / 2"
    unfolding z_def by (rule rint_error)
  have p1: "(1 - eps) * w \<le> p" and p2: "p \<le> (1 + eps) * w"
    unfolding p_def w_def using sm_div_bounds [OF sm z0, of 100] by simp_all
  have "0 \<le> (1 - eps) * w"
    using e1 w0 by (rule mult_nonneg_nonneg)
  with p1 have "0 \<le> p" by linarith
  then show "0 \<le> fl_round fp 2 r" by (simp add: p)
  have pw: "\<bar>p - w\<bar> \<le> eps * w"
    using p1 p2 by (rule rel_abs)
  have yc: "\<bar>y - c\<bar> \<le> eps * c"
    using y1 y2 by (rule rel_abs)
  have zub: "z \<le> (1 + eps) * c + 1 / 2"
    using zy y2 by linarith
  have wub: "w \<le> (1 + eps) * r + 1 / 200"
    using zub by (simp add: w_def c_def algebra_simps)
  have "eps * w \<le> eps * ((1 + eps) * r + 1 / 200)"
    using wub e0 by (rule mult_left_mono)
  with pw have pw': "\<bar>p - w\<bar> \<le> eps * ((1 + eps) * r + 1 / 200)"
    by linarith
  have "\<bar>w - y / 100\<bar> = \<bar>z - y\<bar> / 100"
    by (simp add: w_def diff_divide_distrib [symmetric])
  moreover have "\<bar>z - y\<bar> / 100 \<le> (1 / 2) / 100"
    using zy by (rule divide_right_mono) simp
  ultimately have wy: "\<bar>w - y / 100\<bar> \<le> 1 / 200"
    by simp
  have "y / 100 - r = (y - c) / 100"
    by (simp add: c_def diff_divide_distrib)
  then have "\<bar>y / 100 - r\<bar> = \<bar>y - c\<bar> / 100"
    by (simp only: abs_divide abs_numeral)
  moreover have "\<bar>y - c\<bar> / 100 \<le> (eps * c) / 100"
    using yc by (rule divide_right_mono) simp
  moreover have "(eps * c) / 100 = eps * r"
    by (simp add: c_def)
  ultimately have yr: "\<bar>y / 100 - r\<bar> \<le> eps * r"
    by simp
  have "\<bar>p - r\<bar> \<le> \<bar>p - w\<bar> + \<bar>w - y / 100\<bar> + \<bar>y / 100 - r\<bar>"
    by linarith
  also have "\<dots> \<le> eps * ((1 + eps) * r + 1 / 200) + 1 / 200 + eps * r"
    using pw' wy yr by linarith
  also have "\<dots> = (1 + eps) / 200 + eps * (2 + eps) * r"
    by (simp add: algebra_simps)
  finally show "\<bar>fl_round fp 2 r - r\<bar> \<le> (1 + eps) / 200 + eps * (2 + eps) * r"
    by (simp add: p)
qed

text \<open>The share of a non-negative total in a positive divisor, before it is rounded.\<close>

lemma share_bounds:
  assumes sm: "standard_model fp eps" and e: "eps \<le> 1" and T: "0 \<le> T" and S: "0 < S"
  shows "(1 - eps) * ((1 - eps) * (T / S * 100)) \<le> f_mul fp (f_div fp T S) 100"
    and "f_mul fp (f_div fp T S) 100 \<le> (1 + eps) * ((1 + eps) * (T / S * 100))"
    and "0 \<le> f_mul fp (f_div fp T S) 100"
proof -
  define a where "a = T / S"
  define q where "q = f_div fp T S"
  have e0: "0 \<le> eps" by (rule sm_eps [OF sm])
  have e1: "0 \<le> 1 - eps" using e by simp
  have e2: "0 \<le> 1 + eps" using e0 by simp
  have a0: "0 \<le> a" using T S by (simp add: a_def)
  have q1: "(1 - eps) * a \<le> q" and q2: "q \<le> (1 + eps) * a"
    unfolding q_def a_def using sm_div_bounds [OF sm T S] by simp_all
  have "0 \<le> (1 - eps) * a" using e1 a0 by (rule mult_nonneg_nonneg)
  with q1 have q0: "0 \<le> q" by linarith
  have r1: "(1 - eps) * (q * 100) \<le> f_mul fp q 100"
    and r2: "f_mul fp q 100 \<le> (1 + eps) * (q * 100)"
    using sm_mul_bounds [OF sm q0, of 100] by simp_all
  have "(1 - eps) * a * 100 \<le> q * 100"
    using q1 by simp
  then have "(1 - eps) * ((1 - eps) * a * 100) \<le> (1 - eps) * (q * 100)"
    using e1 by (rule mult_left_mono)
  with r1 have "(1 - eps) * ((1 - eps) * a * 100) \<le> f_mul fp q 100"
    by linarith
  then show "(1 - eps) * ((1 - eps) * (T / S * 100)) \<le> f_mul fp (f_div fp T S) 100"
    by (simp add: q_def a_def mult.assoc)
  have "q * 100 \<le> (1 + eps) * a * 100"
    using q2 by simp
  then have "(1 + eps) * (q * 100) \<le> (1 + eps) * ((1 + eps) * a * 100)"
    using e2 by (rule mult_left_mono)
  with r2 have "f_mul fp q 100 \<le> (1 + eps) * ((1 + eps) * a * 100)"
    by linarith
  then show "f_mul fp (f_div fp T S) 100 \<le> (1 + eps) * ((1 + eps) * (T / S * 100))"
    by (simp add: q_def a_def mult.assoc)
  have "0 \<le> (1 - eps) * (q * 100)"
    using e1 q0 by (intro mult_nonneg_nonneg) simp_all
  with r1 show "0 \<le> f_mul fp (f_div fp T S) 100"
    unfolding q_def by linarith
qed

lemma sum_list_abs_nonneg:
  fixes xs :: "real list"
  assumes "\<forall>x\<in>set xs. 0 \<le> x"
  shows "sum_list (map abs xs) = sum_list xs"
proof -
  have "map abs xs = xs"
    using assms by (intro map_idI) simp
  then show ?thesis by simp
qed

lemma sum_list_scaled:
  fixes xs :: "real list"
  shows "sum_list (map (\<lambda>x. x / S * 100) xs) = sum_list xs / S * 100"
  by (induction xs) (simp_all add: add_divide_distrib distrib_right)

lemma poly_upper:
  fixes e :: real
  assumes "0 \<le> e" and "e \<le> 1 / 5"
  shows "(1 + e) * (1 + e) \<le> (1 + 4 * e) * (1 - e)"
proof -
  have "0 \<le> e * (1 - 5 * e)"
    using assms by (intro mult_nonneg_nonneg) simp_all
  moreover have "(1 + 4 * e) * (1 - e) - (1 + e) * (1 + e) = e * (1 - 5 * e)"
    by (simp add: algebra_simps)
  ultimately show ?thesis by linarith
qed

lemma poly_lower:
  fixes e :: real
  shows "(1 - 3 * e) * (1 + e) \<le> (1 - e) * (1 - e)"
proof -
  have "0 \<le> 4 * (e * e)" by simp
  moreover have "(1 - e) * (1 - e) - (1 - 3 * e) * (1 + e) = 4 * (e * e)"
    by (simp add: algebra_simps)
  ultimately show ?thesis by linarith
qed

text \<open>
  The shares of non-negative totals with a positive sum: each is a non-negative finite
  number, and they sum to 100 up to the rounding of each share to two decimals and the
  error of the arithmetic.
\<close>

lemma shares_sum:
  fixes Ts :: "real list"
  assumes sm: "standard_model fp eps" and e: "eps \<le> 1 / 10"
    and nn: "\<forall>T\<in>set Ts. 0 \<le> T" and pos: "0 < sum_list Ts"
  defines "S \<equiv> series_sum fp Ts"
  defines "R \<equiv> \<lambda>T. f_mul fp (f_div fp T S) 100"
  shows "0 < S"
    and "\<forall>T\<in>set Ts. 0 \<le> fl_round fp 2 (R T)"
    and "\<bar>sum_list (map (\<lambda>T. fl_round fp 2 (R T)) Ts) - 100\<bar>
           \<le> real (length Ts) * (1 + eps) / 200 + 1000 * eps"
proof -
  define sigma where "sigma = sum_list Ts"
  define A where "A = sigma / S * 100"
  have e0: "0 \<le> eps" by (rule sm_eps [OF sm])
  have e1: "eps \<le> 1" using e by simp
  have "\<bar>S - sigma\<bar> \<le> eps * sum_list (map abs Ts)"
    unfolding S_def sigma_def by (rule sm_series_sum [OF sm])
  then have "\<bar>S - sigma\<bar> \<le> eps * sigma"
    by (simp only: sum_list_abs_nonneg [OF nn] sigma_def)
  then have S1: "(1 - eps) * sigma \<le> S" and S2: "S \<le> (1 + eps) * sigma"
    by (rule rel_bounds)+
  have sg: "0 < sigma" using pos by (simp add: sigma_def)
  have "0 < (1 - eps) * sigma"
    using e sg by (intro mult_pos_pos) simp_all
  with S1 show S0: "0 < S" by linarith
  have A0: "0 \<le> A"
    using sg S0 by (simp add: A_def)
  have AS: "A * S = 100 * sigma"
    using S0 by (simp add: A_def)
  have "A * ((1 - eps) * sigma) \<le> A * S"
    using S1 A0 by (rule mult_left_mono)
  then have "((1 - eps) * A) * sigma \<le> 100 * sigma"
    by (simp add: AS mult.assoc mult.left_commute)
  then have A1: "(1 - eps) * A \<le> 100"
    using sg by simp
  have "A * S \<le> A * ((1 + eps) * sigma)"
    using S2 A0 by (rule mult_left_mono)
  then have "100 * sigma \<le> ((1 + eps) * A) * sigma"
    by (simp add: AS mult.assoc mult.left_commute)
  then have A2: "100 \<le> (1 + eps) * A"
    using sg by simp
  have Rb: "(1 - eps) * ((1 - eps) * (T / S * 100)) \<le> R T
            \<and> R T \<le> (1 + eps) * ((1 + eps) * (T / S * 100)) \<and> 0 \<le> R T"
    if "T \<in> set Ts" for T
    unfolding R_def using share_bounds [OF sm e1 _ S0, of T] nn that by blast
  have sumA: "sum_list (map (\<lambda>T. T / S * 100) Ts) = A"
    by (simp only: sum_list_scaled A_def sigma_def)
  have "sum_list (map (\<lambda>T. (1 - eps) * ((1 - eps) * (T / S * 100))) Ts) \<le> sum_list (map R Ts)"
    by (rule sum_list_mono) (use Rb in blast)
  then have lo: "(1 - eps) * ((1 - eps) * A) \<le> sum_list (map R Ts)"
    by (simp only: sum_list_const_mult sumA)
  have "sum_list (map R Ts) \<le> sum_list (map (\<lambda>T. (1 + eps) * ((1 + eps) * (T / S * 100))) Ts)"
    by (rule sum_list_mono) (use Rb in blast)
  then have hi: "sum_list (map R Ts) \<le> (1 + eps) * ((1 + eps) * A)"
    by (simp only: sum_list_const_mult sumA)
  have "(1 + eps) * (1 + eps) * A \<le> (1 + 4 * eps) * (1 - eps) * A"
    using poly_upper [OF e0] e A0 by (intro mult_right_mono) simp_all
  also have "\<dots> = (1 + 4 * eps) * ((1 - eps) * A)"
    by (simp add: mult.assoc)
  also have "\<dots> \<le> (1 + 4 * eps) * 100"
    using A1 e0 by (intro mult_left_mono) simp_all
  finally have "(1 + eps) * ((1 + eps) * A) \<le> 100 + 400 * eps"
    by (simp add: mult.assoc algebra_simps)
  with hi have hi': "sum_list (map R Ts) \<le> 100 + 400 * eps"
    by linarith
  have "(1 - 3 * eps) * 100 \<le> (1 - 3 * eps) * ((1 + eps) * A)"
    using A2 e by (intro mult_left_mono) simp_all
  also have "\<dots> = (1 - 3 * eps) * (1 + eps) * A"
    by (simp add: mult.assoc)
  also have "\<dots> \<le> (1 - eps) * (1 - eps) * A"
    using poly_lower [of eps] A0 by (intro mult_right_mono) simp_all
  finally have "100 - 300 * eps \<le> (1 - eps) * ((1 - eps) * A)"
    by (simp add: mult.assoc algebra_simps)
  with lo have lo': "100 - 300 * eps \<le> sum_list (map R Ts)"
    by linarith
  have R0: "0 \<le> sum_list (map R Ts)"
    by (rule sum_list_nonneg) (use Rb in auto)
  have Pb: "\<bar>fl_round fp 2 (R T) - R T\<bar> \<le> (1 + eps) / 200 + eps * (2 + eps) * R T
            \<and> 0 \<le> fl_round fp 2 (R T)"
    if "T \<in> set Ts" for T
    using fl_round_2_error [OF sm e1, of "R T"] Rb [OF that] by blast
  then show "\<forall>T\<in>set Ts. 0 \<le> fl_round fp 2 (R T)"
    by blast
  have "sum_list (map (\<lambda>T. fl_round fp 2 (R T)) Ts) - sum_list (map R Ts)
          = sum_list (map (\<lambda>T. fl_round fp 2 (R T) - R T) Ts)"
    by (simp only: sum_list_subtractf)
  also have "\<bar>\<dots>\<bar> \<le> sum_list (map (\<lambda>T. \<bar>fl_round fp 2 (R T) - R T\<bar>) Ts)"
    using sum_list_abs [of "map (\<lambda>T. fl_round fp 2 (R T) - R T) Ts"]
    by (simp add: comp_def)
  also have "\<dots> \<le> sum_list (map (\<lambda>T. (1 + eps) / 200 + eps * (2 + eps) * R T) Ts)"
    by (rule sum_list_mono) (use Pb in blast)
  also have "\<dots> = real (length Ts) * ((1 + eps) / 200) + eps * (2 + eps) * sum_list (map R Ts)"
    by (simp only: sum_list_addf sum_list_triv sum_list_const_mult)
  finally have PR: "\<bar>sum_list (map (\<lambda>T. fl_round fp 2 (R T)) Ts) - sum_list (map R Ts)\<bar>
         \<le> real (length Ts) * ((1 + eps) / 200) + eps * (2 + eps) * sum_list (map R Ts)" .
  have c1: "eps * (2 + eps) \<le> eps * (21 / 10)"
    using e e0 by (intro mult_left_mono) simp_all
  have c2: "sum_list (map R Ts) \<le> 140"
    using hi' e by linarith
  have c3: "0 \<le> eps * (21 / 10)"
    using e0 by simp
  have "eps * (2 + eps) * sum_list (map R Ts) \<le> eps * (21 / 10) * 140"
    by (rule mult_mono [OF c1 c2 c3 R0])
  then have c: "eps * (2 + eps) * sum_list (map R Ts) \<le> 294 * eps"
    by simp
  have "\<bar>sum_list (map (\<lambda>T. fl_round fp 2 (R T)) Ts) - 100\<bar>
          \<le> \<bar>sum_list (map (\<lambda>T. fl_round fp 2 (R T)) Ts) - sum_list (map R Ts)\<bar>
             + \<bar>sum_list (map R Ts) - 100\<bar>"
    by linarith
  moreover have "\<bar>sum_list (map R Ts) - 100\<bar> \<le> 400 * eps"
    using lo' hi' e0 by (simp add: abs_le_iff)
  ultimately have "\<bar>sum_list (map (\<lambda>T. fl_round fp 2 (R T)) Ts) - 100\<bar>
          \<le> real (length Ts) * ((1 + eps) / 200) + 294 * eps + 400 * eps"
    using PR c by linarith
  then show "\<bar>sum_list (map (\<lambda>T. fl_round fp 2 (R T)) Ts) - 100\<bar>
           \<le> real (length Ts) * (1 + eps) / 200 + 1000 * eps"
    using e0 by simp
qed

lemma analyze_payment_types_alt:
  "analyze_payment_types fp df
     = (let ms = map (payment_row fp df) (group_keys payment_type df)
        in map (payment_pct fp (series_sum fp (map total_sales ms))) ms)"
proof -
  have g: "map (\<lambda>(k, g).
                   \<lparr>index = k, transaction_count = length g,
                    total_sales = fl_round fp 2 (group_sum fp (map price g)),
                    avg_ticket = fl_round fp 2 (group_mean fp (map price g))\<rparr>)
                (groupby payment_type df)
            = map (\<lambda>k. payment_row fp df k) (group_keys payment_type df)"
    unfolding payment_row_def groupby_def Let_def by (simp add: comp_def)
  have p: "(\<lambda>m. \<lparr>index = index m, transaction_count = transaction_count m,
                 total_sales = total_sales m, avg_ticket = metrics.avg_ticket m,
                 sales_percentage =
                   fmap (fl_round fp 2)
                     (fmap (\<lambda>q. f_mul fp q 100) (fl_divide fp (total_sales m) tot))\<rparr>)
           = payment_pct fp tot" for tot
    by (rule ext) (simp add: payment_pct_def)
  show ?thesis
    unfolding analyze_payment_types_def g p by simp
qed

lemma payment_pct_sel [simp]:
  "total_sales (payment_pct fp tot m) = total_sales m"
  "index (payment_pct fp tot m) = index m"
  "sales_percentage (payment_pct fp tot m)
     = fmap (fl_round fp 2) (fmap (\<lambda>q. f_mul fp q 100) (fl_divide fp (total_sales m) tot))"
  by (simp_all add: payment_pct_def)

lemma finite_values_Fin [simp]: "finite_values (map Fin ps) = ps"
  by (induction ps) simp_all

lemma sum_skipna_Fin [simp]: "sum_skipna fp (map Fin ps) = Fin (series_sum fp ps)"
proof -
  have "PInf \<notin> set (map Fin ps)" "NInf \<notin> set (map Fin ps)"
    by auto
  then show ?thesis
    by (simp only: sum_skipna_def finite_values_Fin if_False simp_thms)
qed

lemma zero_total_shares:
  assumes "standard_model fp eps"
  shows "preprocess_data fp [sample_row ''Soda'' 0] \<noteq> []
       \<and> map sales_percentage (analyze_payment_types fp (preprocess_data fp [sample_row ''Soda'' 0]))
           = [NaN]
       \<and> sum_skipna fp
           (map sales_percentage
              (analyze_payment_types fp (preprocess_data fp [sample_row ''Soda'' 0])))
           = Fin 0"
proof -
  let ?df = "preprocess_data fp [sample_row ''Soda'' 0]"
  have p: "?df = [enrich fp [sample_row ''Soda'' 0] (sample_row ''Soda'' 0)]"
    by (simp add: preprocess_data_map)
  have pt: "payment_type (sample_row ''Soda'' 0) = None"
    by (simp add: sample_row_def)
  have k: "group_keys payment_type ?df = [''UNKNOWN'']"
    unfolding p by (simp add: group_keys_def List.map_filter_simps enrich_sel pt)
  have g0: "group_sum fp [0] = 0"
    using sm_group_sum [OF assms, of "[0]"] by simp
  have s0: "series_sum fp [0] = 0"
    using sm_series_sum [OF assms, of "[0]"] by simp
  have s1: "series_sum fp [] = 0"
    using sm_series_sum [OF assms, of "[]"] by simp
  have t: "total_sales (payment_row fp ?df ''UNKNOWN'') = 0"
    unfolding p using assms by (simp add: payment_row_def Let_def enrich_sel pt g0)
  have a: "map sales_percentage (analyze_payment_types fp ?df) = [NaN]"
    unfolding analyze_payment_types_alt k by (simp add: Let_def t s0 fl_divide_def)
  have b: "sum_skipna fp [NaN] = Fin 0"
    by (simp add: sum_skipna_def s1)
  show ?thesis
    unfolding a b by (simp add: p)
qed

text \<open>
  With totals of both signs the exact sum can be zero and the computed divisor a rounding
  error: in an arithmetic of the standard model the shares are then finite, huge, and sum
  to 0.
\<close>

lemma cancelling_ops_sel [simp]:
  "f_mul cancelling_ops = (*)" "f_div cancelling_ops = (/)"
  "group_sum cancelling_ops = sum_list"
  "series_sum cancelling_ops xs
     = (if xs = [1 / 10, 2 / 10, - 3 / 10] then 1 / 2 ^ 54 else sum_list xs)"
  by (simp_all add: cancelling_ops_def exact_ops_def)

lemma sum_list_abs_ge0: "0 \<le> sum_list (map abs (xs :: real list))"
  by (rule sum_list_nonneg) auto

lemma standard_model_cancelling: "standard_model cancelling_ops (1 / 2 ^ 53)"
  unfolding standard_model_def
proof (intro conjI allI impI)
  fix xs :: "real list"
  show "\<bar>series_sum cancelling_ops xs - sum_list xs\<bar> \<le> 1 / 2 ^ 53 * sum_list (map abs xs)"
  proof (cases "xs = [1 / 10, 2 / 10, - 3 / 10]")
    case True
    then show ?thesis by simp
  next
    case False
    then show ?thesis using sum_list_abs_ge0 [of xs] by simp
  qed
  show "\<bar>group_sum cancelling_ops xs - sum_list xs\<bar> \<le> 1 / 2 ^ 53 * sum_list (map abs xs)"
    using sum_list_abs_ge0 [of xs] by simp
qed simp_all

lemma cancelling_totals_shares:
  "standard_model cancelling_ops (1 / 2 ^ 53)
   \<and> map total_sales (analyze_payment_types cancelling_ops
                         (preprocess_data cancelling_ops cancelling_sample))
       = [1 / 10, 2 / 10, - 3 / 10]
   \<and> map sales_percentage (analyze_payment_types cancelling_ops
                               (preprocess_data cancelling_ops cancelling_sample))
       = [Fin 180143985094819840, Fin 360287970189639680, Fin (- 540431955284459520)]
   \<and> (180143985094819840 + 360287970189639680 + (- 540431955284459520) :: real) = 0"
proof -
  let ?df = "preprocess_data cancelling_ops cancelling_sample"
  have "group_keys payment_type ?df = sort (remdups [''CASH'', ''CREDIT'', ''DEBIT''])"
    by (simp add: preprocess_data_map cancelling_sample_def enrich_sel group_keys_def
        List.map_filter_simps del: remdups.simps sort_key_simps)
  also have "\<dots> = [''CASH'', ''CREDIT'', ''DEBIT'']"
    by code_simp
  finally have k: "group_keys payment_type ?df = [''CASH'', ''CREDIT'', ''DEBIT'']" .
  have r: "fl_round cancelling_ops 2 (1 / 10) = 1 / 10"
    "fl_round cancelling_ops 2 (2 / 10) = 2 / 10"
    "fl_round cancelling_ops 2 (- 3 / 10) = - 3 / 10"
    by (simp_all add: fl_round_def rint_def Let_def)
  have t: "map total_sales (map (payment_row cancelling_ops ?df) [''CASH'', ''CREDIT'', ''DEBIT''])
             = [1 / 10, 2 / 10, - 3 / 10]"
    using r by (simp add: payment_row_def Let_def preprocess_data_map cancelling_sample_def enrich_sel)
  have ts: "map total_sales (analyze_payment_types cancelling_ops ?df) = [1 / 10, 2 / 10, - 3 / 10]"
    unfolding analyze_payment_types_alt k Let_def using t by (simp add: comp_def)
  have s: "series_sum cancelling_ops [1 / 10, 2 / 10, - 3 / 10] = 1 / 2 ^ 54"
    by simp
  have q: "fl_round cancelling_ops 2 (f_mul cancelling_ops (f_div cancelling_ops (1 / 10) (1 / 2 ^ 54)) 100)
             = 180143985094819840"
    "fl_round cancelling_ops 2 (f_mul cancelling_ops (f_div cancelling_ops (2 / 10) (1 / 2 ^ 54)) 100)
             = 360287970189639680"
    "fl_round cancelling_ops 2 (f_mul cancelling_ops (f_div cancelling_ops (- 3 / 10) (1 / 2 ^ 54)) 100)
             = - 540431955284459520"
    by (simp_all add: fl_round_def rint_def Let_def)
  have tl: "total_sales (payment_row cancelling_ops ?df ''CASH'') = 1 / 10"
    "total_sales (payment_row cancelling_ops ?df ''CREDIT'') = 2 / 10"
    "total_sales (payment_row cancelling_ops ?df ''DEBIT'') = - 3 / 10"
    using t by simp_all
  have d: "fl_divide cancelling_ops T (1 / 2 ^ 54) = Fin (f_div cancelling_ops T (1 / 2 ^ 54))" for T
    by (simp add: fl_divide_def)
  have a: "map sales_percentage (analyze_payment_types cancelling_ops ?df)
       = [Fin 180143985094819840, Fin 360287970189639680, Fin (- 540431955284459520)]"
    unfolding analyze_payment_types_alt k Let_def t s
    by (simp only: list.map payment_pct_sel tl d fmap.simps q)
  show ?thesis
    using standard_model_cancelling ts a by simp
qed

section \<open>Claims\<close>



text \<open>
  C2. A row whose item name occurs exactly once in the table is not flagged as a price
  anomaly by preprocessing.
\<close>

theorem single_occurrence_not_flagged:
  assumes "i < length t"
    and "length (filter (\<lambda>r. item_name r = item_name (t ! i)) t) = 1"
  shows "\<not> price_anomaly (preprocess_data fp t ! i)"
  using assms
  by (simp add: preprocess_data_map enrich_anomaly Let_def item_prices_def std_def
      gt_nan_def lt_nan_def)

theorem single_occurrence_not_flagged_witness:
  "length (filter (\<lambda>r. item_name r = ''Soda'')
       [sample_row ''Burger'' 10, sample_row ''Soda'' 3, sample_row ''Burger'' 12]) = 1
   \<and> \<not> price_anomaly (preprocess_data exact_ops
       [sample_row ''Burger'' 10, sample_row ''Soda'' 3, sample_row ''Burger'' 12] ! 1)"
  using single_occurrence_not_flagged
    [of 1 "[sample_row ''Burger'' 10, sample_row ''Soda'' 3, sample_row ''Burger'' 12]" exact_ops]
  by simp

text \<open>
  C3. A loaded table that lacks at least one of the eight required columns makes the
  loader fail with the schema error (the \<open>ValueError\<close> of the column check), which
  carries exactly the required columns that are missing; a loaded table that has all
  eight is returned, with no failure.
\<close>

theorem load_pos_data_schema:
  assumes "(if from_database then from_db source else from_file source) = Inr df"
  shows "(\<not> set required_columns \<subseteq> set (columns df) \<longrightarrow>
            load_pos_data from_db from_file source from_database =
              Inl (ValueError {c \<in> set required_columns. c \<notin> set (columns df)})
            \<and> {c \<in> set required_columns. c \<notin> set (columns df)} \<noteq> {})
       \<and> (set required_columns \<subseteq> set (columns df) \<longrightarrow>
            load_pos_data from_db from_file source from_database = Inr df)"
proof -
  have eq: "set required_columns - set (columns df)
              = {c \<in> set required_columns. c \<notin> set (columns df)}"
    by auto
  show ?thesis
    using assms unfolding load_pos_data_def Let_def eq
    by (auto split: sum.splits)
qed

theorem load_pos_data_schema_witness:
  "load_pos_data (\<lambda>s. Inl (SourceError s))
      (\<lambda>s. Inr \<lparr>columns = [''timestamp'', ''location'', ''server_id'', ''table_number'',
                             ''item_name'', ''item_category'', ''payment_type''],
                  payload = ()\<rparr>)
      ''pos.csv'' False
     = Inl (ValueError {''price''})
   \<and> load_pos_data (\<lambda>s. Inr \<lparr>columns = [''id'', ''timestamp'', ''location'', ''server_id'',
                             ''table_number'', ''item_name'', ''item_category'', ''price'',
                             ''payment_type''],
                  payload = ()\<rparr>)
      (\<lambda>s. Inl (SourceError s)) ''SELECT 1'' True
     = Inr \<lparr>columns = [''id'', ''timestamp'', ''location'', ''server_id'',
                             ''table_number'', ''item_name'', ''item_category'', ''price'',
                             ''payment_type''],
            payload = ()\<rparr>"
proof -
  let ?d1 = "\<lparr>columns = [''timestamp'', ''location'', ''server_id'', ''table_number'',
                             ''item_name'', ''item_category'', ''payment_type''],
                  payload = ()\<rparr>"
  let ?d2 = "\<lparr>columns = [''id'', ''timestamp'', ''location'', ''server_id'',
                             ''table_number'', ''item_name'', ''item_category'', ''price'',
                             ''payment_type''],
                  payload = ()\<rparr>"
  have a: "{c \<in> set required_columns. c \<notin> set (columns ?d1)} = {''price''}"
    by (auto simp: required_columns_def)
  have b: "set required_columns \<subseteq> set (columns ?d2)"
    by (simp add: required_columns_def)
  have c: "\<not> set required_columns \<subseteq> set (columns ?d1)"
    by (simp add: required_columns_def)
  from load_pos_data_schema [of False "\<lambda>s. Inl (SourceError s)" "''pos.csv''" "\<lambda>s. Inr ?d1" ?d1]
       load_pos_data_schema [of True "\<lambda>s. Inr ?d2" "''SELECT 1''" "\<lambda>s. Inl (SourceError s)" ?d2]
       a b c
  show ?thesis by simp
qed

text \<open>
  C4, as the code has it. In an arithmetic that meets the standard model with an error of
  at most a tenth, when no payment type has a negative total and the totals (each rounded
  to two decimals) have a positive sum, every \<open>sales_percentage\<close> is a finite number and
  their sum differs from 100 by at most 0.005 for each payment type, the error of rounding
  a share to two decimals, up to the error of the arithmetic; so does the sum as
  \<open>Series.sum\<close> computes it.
\<close>

theorem sales_percentage_sum:
  assumes "standard_model fp eps" and "eps \<le> 1 / 10"
    and "\<forall>m\<in>set (analyze_payment_types fp df). 0 \<le> total_sales m"
    and "0 < sum_list (map total_sales (analyze_payment_types fp df))"
  shows "\<exists>ps. map sales_percentage (analyze_payment_types fp df) = map Fin ps
           \<and> sum_skipna fp (map sales_percentage (analyze_payment_types fp df))
                = Fin (series_sum fp ps)
           \<and> \<bar>sum_list ps - 100\<bar>
                \<le> 0.005 * real (length (analyze_payment_types fp df)) * (1 + eps) + 1000 * eps
           \<and> \<bar>series_sum fp ps - 100\<bar>
                \<le> (1 + eps)
                     * (0.005 * real (length (analyze_payment_types fp df)) * (1 + eps)
                        + 1000 * eps)
                   + 100 * eps"
proof -
  let ?ms = "map (payment_row fp df) (group_keys payment_type df)"
  let ?Ts = "map total_sales ?ms"
  let ?S = "series_sum fp ?Ts"
  let ?R = "\<lambda>T. f_mul fp (f_div fp T ?S) 100"
  let ?ps = "map (\<lambda>T. fl_round fp 2 (?R T)) ?Ts"
  define B where "B = 0.005 * real (length (analyze_payment_types fp df)) * (1 + eps) + 1000 * eps"
  have a: "analyze_payment_types fp df = map (payment_pct fp ?S) ?ms"
    by (simp only: analyze_payment_types_alt Let_def)
  have ts: "map total_sales (analyze_payment_types fp df) = ?Ts"
    unfolding a by (simp add: comp_def)
  have len: "length (analyze_payment_types fp df) = length ?Ts"
    unfolding a by simp
  have nn: "\<forall>T\<in>set ?Ts. 0 \<le> T"
    using assms(3) unfolding ts [symmetric] by simp
  have pos: "0 < sum_list ?Ts"
    using assms(4) unfolding ts .
  note sh = shares_sum [OF assms(1,2) nn pos]
  have S0: "?S \<noteq> 0"
    using sh(1) by simp
  have p0: "\<forall>p\<in>set ?ps. 0 \<le> p"
    using sh(2) by simp
  have e0: "0 \<le> eps" by (rule sm_eps [OF assms(1)])
  have 1: "map sales_percentage (analyze_payment_types fp df) = map Fin ?ps"
    unfolding a using S0 by (simp add: fl_divide_def comp_def)
  have 2: "sum_skipna fp (map sales_percentage (analyze_payment_types fp df))
             = Fin (series_sum fp ?ps)"
    unfolding 1 by (rule sum_skipna_Fin)
  have "\<bar>sum_list ?ps - 100\<bar> \<le> real (length ?Ts) * (1 + eps) / 200 + 1000 * eps"
    using sh(3) by (simp only: map_map comp_def)
  then have 3: "\<bar>sum_list ?ps - 100\<bar> \<le> B"
    unfolding B_def len by simp
  have "\<bar>series_sum fp ?ps - sum_list ?ps\<bar> \<le> eps * sum_list (map abs ?ps)"
    by (rule sm_series_sum [OF assms(1)])
  then have d: "\<bar>series_sum fp ?ps - sum_list ?ps\<bar> \<le> eps * sum_list ?ps"
    by (simp only: sum_list_abs_nonneg [OF p0])
  have "sum_list ?ps \<le> 100 + B"
    using 3 by linarith
  then have "eps * sum_list ?ps \<le> eps * (100 + B)"
    using e0 by (rule mult_left_mono)
  with d 3 have "\<bar>series_sum fp ?ps - 100\<bar> \<le> B + eps * (100 + B)"
    by linarith
  then have 4: "\<bar>series_sum fp ?ps - 100\<bar> \<le> (1 + eps) * B + 100 * eps"
    by (simp add: algebra_simps)
  show ?thesis
    unfolding B_def [symmetric]
    by (rule exI [of _ ?ps], intro conjI) (fact 1 2 3 4)+
qed

theorem sales_percentage_sum_witness:
  "standard_model exact_ops 0
   \<and> map sales_percentage (analyze_payment_types exact_ops (preprocess_data exact_ops heatmap_sample))
       = [Fin 40, Fin 20, Fin 40]
   \<and> (\<exists>ps. map sales_percentage
               (analyze_payment_types exact_ops (preprocess_data exact_ops heatmap_sample))
             = map Fin ps
          \<and> \<bar>sum_list ps - 100\<bar> \<le> 0.005 * 3)"
proof -
  let ?df = "preprocess_data exact_ops heatmap_sample"
  have "group_keys payment_type ?df = sort (remdups [''CASH'', ''CREDIT'', ''UNKNOWN'', ''UNKNOWN''])"
    by (simp add: preprocess_data_map heatmap_sample_def enrich_sel group_keys_def
        List.map_filter_simps del: remdups.simps sort_key_simps)
  also have "\<dots> = [''CASH'', ''CREDIT'', ''UNKNOWN'']"
    by code_simp
  finally have k: "group_keys payment_type ?df = [''CASH'', ''CREDIT'', ''UNKNOWN'']" .
  have r: "fl_round exact_ops 2 10 = 10" "fl_round exact_ops 2 5 = 5"
    "fl_round exact_ops 2 40 = 40" "fl_round exact_ops 2 20 = 20"
    by (simp_all add: fl_round_def rint_def Let_def)
  have t: "map total_sales (map (payment_row exact_ops ?df) [''CASH'', ''CREDIT'', ''UNKNOWN''])
             = [10, 5, 10]"
    by (simp add: payment_row_def Let_def preprocess_data_map heatmap_sample_def enrich_sel r)
  have a: "map sales_percentage (analyze_payment_types exact_ops ?df)
             = [Fin 40, Fin 20, Fin 40]"
    unfolding analyze_payment_types_alt k Let_def t
    by (simp add: payment_row_def Let_def preprocess_data_map heatmap_sample_def enrich_sel r
        fl_divide_def)
  have ts: "map total_sales (analyze_payment_types exact_ops ?df) = [10, 5, 10]"
    unfolding analyze_payment_types_alt k Let_def using t by (simp add: comp_def)
  have h3: "\<forall>m\<in>set (analyze_payment_types exact_ops ?df). 0 \<le> total_sales m"
  proof -
    have "\<forall>T\<in>set (map total_sales (analyze_payment_types exact_ops ?df)). 0 \<le> T"
      unfolding ts by simp
    then show ?thesis by simp
  qed
  have h4: "0 < sum_list (map total_sales (analyze_payment_types exact_ops ?df))"
    unfolding ts by simp
  have len: "length (analyze_payment_types exact_ops ?df) = 3"
    using arg_cong [OF ts, of length] by simp
  from sales_percentage_sum [OF standard_model_exact _ h3 h4]
  obtain ps where ps: "map sales_percentage (analyze_payment_types exact_ops ?df) = map Fin ps"
    and b: "\<bar>sum_list ps - 100\<bar>
              \<le> 0.005 * real (length (analyze_payment_types exact_ops ?df)) * (1 + 0) + 1000 * 0"
    by auto
  from b have "\<bar>sum_list ps - 100\<bar> \<le> 0.005 * 3"
    unfolding len by simp
  with ps have "\<exists>ps. map sales_percentage (analyze_payment_types exact_ops ?df) = map Fin ps
          \<and> \<bar>sum_list ps - 100\<bar> \<le> 0.005 * 3"
    by blast
  with a standard_model_exact show ?thesis
    by blast
qed

text \<open>
  C4 as stated fails on a non-empty table whose sales total is zero: the only share is
  0/0, not a number, and the column sums to 0. The table is evaluated in exact
  arithmetic; by \<open>zero_total_shares\<close> every arithmetic of the standard model gives
  the same.
\<close>

theorem zero_total_sales_share_is_nan:
  "preprocess_data exact_ops [sample_row ''Soda'' 0] \<noteq> []
   \<and> map sales_percentage
        (analyze_payment_types exact_ops (preprocess_data exact_ops [sample_row ''Soda'' 0]))
       = [NaN]
   \<and> sum_skipna exact_ops
        (map sales_percentage
           (analyze_payment_types exact_ops (preprocess_data exact_ops [sample_row ''Soda'' 0])))
       = Fin 0"
  by (rule zero_total_shares [OF standard_model_exact])

text \<open>
  C5. For every location that occurs in the table and every hour from 11 to 22, the
  heatmap data has a cell; its value is the number of orders of the location in that hour
  divided by the number of distinct dates of the location (which is positive), rounded to
  one decimal, and so 0.0 when there was no order.
\<close>

theorem heatmap_has_every_operating_hour:
  assumes "l \<in> location ` set df" and "11 \<le> h" and "h \<le> 22"
  shows "\<exists>hm. create_location_hour_heatmap df = Inr hm
          \<and> heatmap_cell hm l h
                = Some (Some (np_round 1 (real (n_orders df l h) / real (n_dates df l))))
          \<and> 0 < n_dates df l
          \<and> (n_orders df l h = 0 \<longrightarrow> heatmap_cell hm l h = Some (Some 0))"
proof -
  have ne: "df \<noteq> []"
    using assms(1) by auto
  from heatmap_cells [OF ne] obtain hm where
    hm: "create_location_hour_heatmap df = Inr hm"
    and cells: "\<And>l h. heatmap_cell hm l h
           = (if l \<in> location ` set df \<and> 11 \<le> h \<and> h \<le> 22
              then Some (Some (np_round 1 (real (n_orders df l h) / real (n_dates df l))))
              else None)"
    by blast
  have c: "heatmap_cell hm l h
             = Some (Some (np_round 1 (real (n_orders df l h) / real (n_dates df l))))"
    using assms by (simp add: cells)
  have z: "n_orders df l h = 0 \<longrightarrow> heatmap_cell hm l h = Some (Some 0)"
    by (simp add: c)
  have p: "0 < n_dates df l"
    by (rule n_dates_pos [OF assms(1)])
  show ?thesis
    by (rule exI [of _ hm], intro conjI) (fact hm c p z)+
qed

theorem heatmap_has_every_operating_hour_witness:
  "\<exists>hm. create_location_hour_heatmap (preprocess_data exact_ops heatmap_sample) = Inr hm
      \<and> heatmap_cell hm ''Airport'' 12 = Some (Some (7 / 10))
      \<and> heatmap_cell hm ''Airport'' 13 = Some (Some 0)"
proof -
  let ?df = "preprocess_data exact_ops heatmap_sample"
  have l: "''Airport'' \<in> location ` set ?df"
    by (simp add: preprocess_data_map heatmap_sample_def enrich_sel)
  have n12: "n_orders ?df ''Airport'' 12 = 2"
    by (simp add: preprocess_data_map heatmap_sample_def n_orders_def enrich_sel sample_times)
  have n13: "n_orders ?df ''Airport'' 13 = 0"
    by (simp add: preprocess_data_map heatmap_sample_def n_orders_def enrich_sel sample_times)
  have d: "n_dates ?df ''Airport'' = 3"
    by (simp add: preprocess_data_map heatmap_sample_def n_dates_def enrich_sel sample_times)
  have r: "np_round (Suc 0) (2 / 3) = 7 / 10"
    by (simp add: np_round_def rint_def Let_def)
  from heatmap_has_every_operating_hour [OF l, of 12] heatmap_has_every_operating_hour [OF l, of 13]
  show ?thesis
    by (auto simp: n12 n13 d r)
qed

text \<open>
  C6. The weekday summary has exactly the seven weekday names as its keys, Monday to
  Sunday in this order, whatever the table holds.
\<close>

theorem daily_average_weekday_keys:
  "map fst (analyze_daily_average_tickets fp df)
     = [''Monday'', ''Tuesday'', ''Wednesday'', ''Thursday'', ''Friday'', ''Saturday'', ''Sunday'']"
  unfolding analyze_daily_average_tickets_def Let_def by (rule map_fst_reindex_nan)

theorem daily_average_weekday_keys_witness:
  "map fst (analyze_daily_average_tickets exact_ops [sample_row ''Soda'' 3])
     = [''Monday'', ''Tuesday'', ''Wednesday'', ''Thursday'', ''Friday'', ''Saturday'', ''Sunday'']"
  by (rule daily_average_weekday_keys)

text \<open>
  C7. The server summary has a row for a server id of the table exactly when the server
  has at least \<open>min_transactions\<close> rows (so every server of the table for a threshold
  of 0 or less). A row is the server's row: its count is the number of the server's rows
  and its total sales the rounded sum of their prices. No server has two rows, and the
  rows are in descending order of total sales, whatever the sort does with equal totals.
\<close>

theorem server_performance_rows:
  "(\<forall>s. s \<in> set (map index (analyze_server_performance fp tie df n)) \<longleftrightarrow>
          (\<exists>r\<in>set df. server_id r = Some s)
          \<and> n \<le> int (length (filter (\<lambda>r. server_id r = Some s) df)))
   \<and> (n \<le> 0 \<longrightarrow> set (map index (analyze_server_performance fp tie df n))
                      = {s. \<exists>r\<in>set df. server_id r = Some s})
   \<and> (\<forall>m\<in>set (analyze_server_performance fp tie df n).
          m = server_row fp df (index m)
          \<and> transaction_count m = length (filter (\<lambda>r. server_id r = Some (index m)) df)
          \<and> total_sales m
                = fl_round fp 2
                    (group_sum fp (map price (filter (\<lambda>r. server_id r = Some (index m)) df))))
   \<and> distinct (map index (analyze_server_performance fp tie df n))
   \<and> sorted_wrt (\<lambda>a b. total_sales b \<le> total_sales a)
        (analyze_server_performance fp tie df n)"
proof -
  let ?A = "analyze_server_performance fp tie df n"
  let ?ks = "filter (\<lambda>k. n \<le> int (length (filter (\<lambda>r. server_id r = Some k) df)))
               (group_keys server_id df)"
  have idx: "map index (map (server_row fp df) ?ks) = ?ks"
    by (simp add: comp_def)
  have s: "set (map index ?A) = set ?ks"
  proof -
    have "set (map index ?A) = set (map index (map (server_row fp df) ?ks))"
      unfolding analyze_server_performance_alt by (simp only: set_map set_sort_values_desc)
    then show ?thesis by (simp only: idx)
  qed
  have a: "\<forall>s. s \<in> set (map index ?A) \<longleftrightarrow>
          (\<exists>r\<in>set df. server_id r = Some s)
          \<and> n \<le> int (length (filter (\<lambda>r. server_id r = Some s) df))"
    unfolding s by (auto simp: set_group_keys)
  have b: "n \<le> 0 \<longrightarrow> set (map index ?A) = {s. \<exists>r\<in>set df. server_id r = Some s}"
    unfolding s by (auto simp: set_group_keys)
  have c: "\<forall>m\<in>set ?A.
          m = server_row fp df (index m)
          \<and> transaction_count m = length (filter (\<lambda>r. server_id r = Some (index m)) df)
          \<and> total_sales m
                = fl_round fp 2
                    (group_sum fp (map price (filter (\<lambda>r. server_id r = Some (index m)) df)))"
    unfolding analyze_server_performance_alt by auto
  have d: "distinct (map index ?A)"
    unfolding analyze_server_performance_alt distinct_map_sort_values_desc idx
    by (simp add: distinct_group_keys)
  have e: "sorted_wrt (\<lambda>a b. total_sales b \<le> total_sales a) ?A"
    unfolding analyze_server_performance_alt by (rule sorted_sort_values_desc)
  show ?thesis
    by (intro conjI) (fact a b c d e)+
qed

theorem server_performance_rows_witness:
  "(\<exists>m\<in>set (analyze_server_performance exact_ops (\<lambda>m. 0)
                (preprocess_data exact_ops heatmap_sample) 2).
       index m = ''S001'' \<and> transaction_count m = 2 \<and> total_sales m = 17)
   \<and> ''S002'' \<notin> set (map index (analyze_server_performance exact_ops (\<lambda>m. 0)
                (preprocess_data exact_ops heatmap_sample) 2))
   \<and> set (map index (analyze_server_performance exact_ops (\<lambda>m. 0)
                (preprocess_data exact_ops heatmap_sample) 0)) = {''S001'', ''S002''}"
proof -
  let ?df = "preprocess_data exact_ops heatmap_sample"
  let ?A = "analyze_server_performance exact_ops (\<lambda>m. 0) ?df 2"
  let ?B = "analyze_server_performance exact_ops (\<lambda>m. 0) ?df 0"
  have c1: "length (filter (\<lambda>r. server_id r = Some ''S001'') ?df) = 2"
    by (simp add: preprocess_data_map heatmap_sample_def enrich_sel)
  have c2: "length (filter (\<lambda>r. server_id r = Some ''S002'') ?df) = 1"
    by (simp add: preprocess_data_map heatmap_sample_def enrich_sel)
  have e1: "\<exists>r\<in>set ?df. server_id r = Some ''S001''"
    by (simp add: preprocess_data_map heatmap_sample_def enrich_sel)
  have s: "{s. \<exists>r\<in>set ?df. server_id r = Some s} = {''S001'', ''S002''}"
    by (auto simp: preprocess_data_map heatmap_sample_def enrich_sel)
  have p1: "map price (filter (\<lambda>r. server_id r = Some ''S001'') ?df) = [10, 7]"
    by (simp add: preprocess_data_map heatmap_sample_def enrich_sel)
  have r: "fl_round exact_ops 2 (group_sum exact_ops [10, 7]) = 17"
    by (simp add: fl_round_def rint_def Let_def)
  note T = server_performance_rows [of exact_ops "\<lambda>m. 0" ?df 2]
  note U = server_performance_rows [of exact_ops "\<lambda>m. 0" ?df 0]
  from T have mem: "\<And>s. s \<in> set (map index ?A) \<longleftrightarrow>
          (\<exists>r\<in>set ?df. server_id r = Some s)
          \<and> 2 \<le> int (length (filter (\<lambda>r. server_id r = Some s) ?df))"
    by (elim conjE) (simp only:)
  from T have rows: "\<forall>m\<in>set ?A.
          m = server_row exact_ops ?df (index m)
          \<and> transaction_count m = length (filter (\<lambda>r. server_id r = Some (index m)) ?df)
          \<and> total_sales m
                = fl_round exact_ops 2
                    (group_sum exact_ops
                       (map price (filter (\<lambda>r. server_id r = Some (index m)) ?df)))"
    by (elim conjE)
  from U have all: "set (map index ?B) = {s. \<exists>r\<in>set ?df. server_id r = Some s}"
    by (elim conjE) (simp only:)
  have "''S001'' \<in> set (map index ?A)"
    unfolding mem using e1 c1 by simp
  then obtain m where m: "m \<in> set ?A" "index m = ''S001''"
    by auto
  with rows have "transaction_count m = 2 \<and> total_sales m = 17"
    by (simp add: c1 p1 r del: exact_ops_sel)
  with m have 1: "\<exists>m\<in>set ?A. index m = ''S001'' \<and> transaction_count m = 2 \<and> total_sales m = 17"
    by blast
  have 2: "''S002'' \<notin> set (map index ?A)"
    unfolding mem using c2 by simp
  have 3: "set (map index ?B) = {''S001'', ''S002''}"
    unfolding all by (rule s)
  show ?thesis
    by (intro conjI) (fact 1 2 3)+
qed

text \<open>
  C8. Constructing a \<open>POSDataAnalyzer\<close> from a reference to a table succeeds and leaves
  the caller's table, and every other DataFrame that existed before, as it was: the
  analyzer's own table is a new object, which holds the preprocessed copy.
\<close>

theorem init_leaves_input_unchanged:
  assumes "df < length h" and "h ! df = Raw rows"
  shows "\<exists>h' an. POSDataAnalyzer_init fp h df = Some (h', an)
           \<and> h' ! df = Raw rows
           \<and> (\<forall>a<length h. h' ! a = h ! a)
           \<and> self_df an \<noteq> df
           \<and> h' ! self_df an = Enriched (preprocess_data fp rows)"
  using assms
  by (simp add: POSDataAnalyzer_init_def alloc_def Let_def nth_append nth_list_update
      preprocess_data_def)

theorem init_leaves_input_unchanged_witness:
  "\<exists>h' an. POSDataAnalyzer_init exact_ops
               [Raw [sample_row ''Soda'' 3], Raw [sample_row ''Burger'' 10]] 1 = Some (h', an)
       \<and> h' ! 0 = Raw [sample_row ''Soda'' 3] \<and> h' ! 1 = Raw [sample_row ''Burger'' 10]
       \<and> self_df an = 3"
proof -
  let ?h = "[Raw [sample_row ''Soda'' 3], Raw [sample_row ''Burger'' 10]]"
  from init_leaves_input_unchanged [of 1 ?h "[sample_row ''Burger'' 10]" exact_ops]
  obtain h' an where i: "POSDataAnalyzer_init exact_ops ?h 1 = Some (h', an)"
    and u: "\<forall>a<length ?h. h' ! a = ?h ! a"
    by auto
  from u have "h' ! 0 = ?h ! 0" "h' ! 1 = ?h ! 1" by simp_all
  moreover from i have "self_df an = 3"
    by (auto simp: POSDataAnalyzer_init_def alloc_def Let_def)
  ultimately show ?thesis using i by simp
qed

text \<open>
  C9. A record whose hour is outside 11 to 22 has no cell in the heatmap data: no location
  has a column for its hour, and the cells of its location count the records within
  operating hours only. Its date is still one of the dates that the divisor of its
  location counts.
\<close>

theorem heatmap_outside_operating_hours:
  assumes "r \<in> set df" and "hour r < 11 \<or> 22 < hour r"
  shows "\<exists>hm. create_location_hour_heatmap df = Inr hm
          \<and> (\<forall>l. heatmap_cell hm l (hour r) = None)
          \<and> (\<forall>h. 11 \<le> h \<and> h \<le> 22 \<longrightarrow>
                 heatmap_cell hm (location r) h
                   = Some (Some (np_round 1
                        (real (n_orders (filter (\<lambda>x. 11 \<le> hour x \<and> hour x \<le> 22) df)
                                 (location r) h)
                         / real (n_dates df (location r))))))
          \<and> date r \<in> set (map date (filter (\<lambda>x. location x = location r) df))
          \<and> n_dates df (location r)
               = card (set (map date (filter (\<lambda>x. location x = location r) df)))"
proof -
  have ne: "df \<noteq> []"
    using assms(1) by auto
  from heatmap_cells [OF ne] obtain hm where
    hm: "create_location_hour_heatmap df = Inr hm"
    and cells: "\<And>l h. heatmap_cell hm l h
           = (if l \<in> location ` set df \<and> 11 \<le> h \<and> h \<le> 22
              then Some (Some (np_round 1 (real (n_orders df l h) / real (n_dates df l))))
              else None)"
    by blast
  have a: "\<forall>l. heatmap_cell hm l (hour r) = None"
    using assms(2) by (auto simp: cells)
  have b: "\<forall>h. 11 \<le> h \<and> h \<le> 22 \<longrightarrow>
                 heatmap_cell hm (location r) h
                   = Some (Some (np_round 1
                        (real (n_orders (filter (\<lambda>x. 11 \<le> hour x \<and> hour x \<le> 22) df)
                                 (location r) h)
                         / real (n_dates df (location r)))))"
    using assms(1) by (simp add: cells n_orders_operating_hours)
  have c: "date r \<in> set (map date (filter (\<lambda>x. location x = location r) df))"
    using assms(1) by simp
  have d: "n_dates df (location r)
               = card (set (map date (filter (\<lambda>x. location x = location r) df)))"
    by (simp only: n_dates_def length_remdups_card_conv)
  show ?thesis
    by (rule exI [of _ hm], intro conjI) (fact hm a b c d)+
qed

theorem heatmap_outside_operating_hours_witness:
  "\<exists>hm. create_location_hour_heatmap (preprocess_data exact_ops heatmap_sample) = Inr hm
      \<and> heatmap_cell hm ''Airport'' 9 = None
      \<and> heatmap_cell hm ''Airport'' 12 = Some (Some (7 / 10))
      \<and> n_dates (preprocess_data exact_ops heatmap_sample) ''Airport'' = 3"
proof -
  let ?df = "preprocess_data exact_ops heatmap_sample"
  let ?r = "enrich exact_ops heatmap_sample (pos_row 1704272400 ''Airport'' None ''Soda'' 3 None)"
  have m: "?r \<in> set ?df"
    by (simp add: preprocess_data_map heatmap_sample_def)
  have h: "hour ?r = 9" "location ?r = ''Airport''"
    by (simp_all add: enrich_sel sample_times)
  have n12: "n_orders (filter (\<lambda>x. 11 \<le> hour x \<and> hour x \<le> 22) ?df) ''Airport'' 12 = 2"
    by (simp add: preprocess_data_map heatmap_sample_def n_orders_def enrich_sel sample_times)
  have d: "n_dates ?df ''Airport'' = 3"
    by (simp add: preprocess_data_map heatmap_sample_def n_dates_def enrich_sel sample_times)
  have r: "np_round (Suc 0) (2 / 3) = 7 / 10"
    by (simp add: np_round_def rint_def Let_def)
  from heatmap_outside_operating_hours [OF m] h
  obtain hm where hm: "create_location_hour_heatmap ?df = Inr hm"
    and a: "\<forall>l. heatmap_cell hm l 9 = None"
    and b: "\<forall>h. 11 \<le> h \<and> h \<le> 22 \<longrightarrow>
                 heatmap_cell hm ''Airport'' h
                   = Some (Some (np_round 1
                        (real (n_orders (filter (\<lambda>x. 11 \<le> hour x \<and> hour x \<le> 22) ?df)
                                 ''Airport'' h)
                         / real (n_dates ?df ''Airport''))))"
    by auto
  from b have "heatmap_cell hm ''Airport'' 12 = Some (Some (7 / 10))"
    by (simp add: n12 d r)
  with hm a d show ?thesis by simp
qed

text \<open>
  C10. A weekday on which the table has no transaction is in the summary with NaN for
  \<open>avg_ticket\<close>, \<open>num_orders\<close> and \<open>total_revenue\<close>, not with zeros.
\<close>

theorem daily_average_missing_weekday:
  assumes "d \<in> set weekday_names"
    and "\<forall>r\<in>set df. dt_day_name (timestamp r) \<noteq> d"
  shows "map_of (analyze_daily_average_tickets fp df) d
           = Some \<lparr>avg_ticket = None, num_orders = None, total_revenue = None\<rparr>"
proof -
  have "d \<notin> set (group_keys (\<lambda>r. Some (dt_day_name (timestamp r))) df)"
    using assms(2) by (auto simp: set_group_keys)
  then have n: "map_of (map (\<lambda>(k, g).
                   (k, \<lparr>avg_ticket = Some (fl_round fp 2 (group_mean fp (map price g))),
                        num_orders = Some (real (length g)),
                        total_revenue = Some (fl_round fp 2 (group_sum fp (map price g)))\<rparr>))
                (groupby (\<lambda>r. Some (dt_day_name (timestamp r))) df)) d = None"
    by (simp only: map_of_groupby_map if_False)
  have d: "d \<in> set [''Monday'', ''Tuesday'', ''Wednesday'', ''Thursday'', ''Friday'', ''Saturday'', ''Sunday'']"
    using assms(1) unfolding weekday_names_def .
  show ?thesis
    unfolding analyze_daily_average_tickets_def Let_def
    by (simp only: map_of_reindex_nan [OF d] n option.case)
qed

theorem daily_average_missing_weekday_witness:
  "map_of (analyze_daily_average_tickets exact_ops [sample_row ''Soda'' 3]) ''Tuesday''
     = Some \<lparr>avg_ticket = None, num_orders = None, total_revenue = None\<rparr>"
proof (rule daily_average_missing_weekday)
  show "''Tuesday'' \<in> set weekday_names"
    by (simp add: weekday_names_def)
  show "\<forall>r\<in>set [sample_row ''Soda'' 3]. dt_day_name (timestamp r) \<noteq> ''Tuesday''"
    by (simp add: sample_row_def dt_day_name_def dt_date_def weekday_names_def)
qed

end
